theory Spec2Isabelle
  imports Complex_Main
begin

section \<open>The C++ types that reach the sampler\<close>

text \<open>
  The template parameters of \<open>basic_random_static::get\<close> range over C++ types. The
  arithmetic types the traits of \<open>random.hpp\<close> name are listed, together with
  \<open>bool\<close> and plain \<open>char\<close> (arithmetic types that no trait accepts) and the
  nested key type \<open>struct common\<close>.
\<close>

datatype ctype =
    T_common
  | T_bool
  | T_char
  | T_signed_char
  | T_unsigned_char
  | T_short
  | T_unsigned_short
  | T_int
  | T_unsigned_int
  | T_long
  | T_unsigned_long
  | T_long_long
  | T_unsigned_long_long
  | T_float
  | T_double
  | T_long_double

text \<open>
  The widths of the integer types and the signedness of plain \<open>char\<close> are fixed by the
  platform, not by \<open>random.hpp\<close>: they are a parameter. A byte has 8 bits.
\<close>

record data_model =
  char_signed :: bool
  short_bits :: nat
  int_bits :: nat
  long_bits :: nat
  long_long_bits :: nat

definition valid_model :: "data_model \<Rightarrow> bool" where
  "valid_model dm \<longleftrightarrow>
     16 \<le> short_bits dm \<and> short_bits dm \<le> int_bits dm \<and>
     int_bits dm \<le> long_bits dm \<and> 32 \<le> long_bits dm \<and>
     long_bits dm \<le> long_long_bits dm \<and> 64 \<le> long_long_bits dm"

definition lp64 :: data_model where
  "lp64 = \<lparr>char_signed = True, short_bits = 16, int_bits = 32,
            long_bits = 64, long_long_bits = 64\<rparr>"

subsection \<open>The traits of the standard library\<close>

text \<open>
  Modelled from the C++ standard (\<open><type_traits>\<close>): \<open>std::is_integral\<close>,
  \<open>std::is_floating_point\<close>, \<open>std::is_arithmetic\<close>, \<open>std::is_signed\<close>
  (an arithmetic type with \<open>T(-1) < T(0)\<close>, so a floating-point type is signed) and
  \<open>std::is_unsigned\<close> (an arithmetic type with \<open>T(0) < T(-1)\<close>).
\<close>

fun is_floating_point :: "ctype \<Rightarrow> bool" where
  "is_floating_point T_float = True"
| "is_floating_point T_double = True"
| "is_floating_point T_long_double = True"
| "is_floating_point _ = False"

fun is_integral :: "ctype \<Rightarrow> bool" where
  "is_integral T_common = False"
| "is_integral T_float = False"
| "is_integral T_double = False"
| "is_integral T_long_double = False"
| "is_integral _ = True"

definition is_arithmetic :: "ctype \<Rightarrow> bool" where
  "is_arithmetic T \<longleftrightarrow> is_integral T \<or> is_floating_point T"

fun is_signed :: "data_model \<Rightarrow> ctype \<Rightarrow> bool" where
  "is_signed dm T_char = char_signed dm"
| "is_signed dm T_signed_char = True"
| "is_signed dm T_short = True"
| "is_signed dm T_int = True"
| "is_signed dm T_long = True"
| "is_signed dm T_long_long = True"
| "is_signed dm T_float = True"
| "is_signed dm T_double = True"
| "is_signed dm T_long_double = True"
| "is_signed dm _ = False"

fun is_unsigned :: "data_model \<Rightarrow> ctype \<Rightarrow> bool" where
  "is_unsigned dm T_bool = True"
| "is_unsigned dm T_char = (\<not> char_signed dm)"
| "is_unsigned dm T_unsigned_char = True"
| "is_unsigned dm T_unsigned_short = True"
| "is_unsigned dm T_unsigned_int = True"
| "is_unsigned dm T_unsigned_long = True"
| "is_unsigned dm T_unsigned_long_long = True"
| "is_unsigned dm _ = False"

subsection \<open>The traits of \<open>random.hpp\<close>\<close>

definition is_uniform_int :: "ctype \<Rightarrow> bool" where
  "is_uniform_int T \<longleftrightarrow>
     T = T_short \<or> T = T_int \<or> T = T_long \<or> T = T_long_long \<or>
     T = T_unsigned_short \<or> T = T_unsigned_int \<or> T = T_unsigned_long \<or>
     T = T_unsigned_long_long"

definition is_uniform_real :: "ctype \<Rightarrow> bool" where
  "is_uniform_real T \<longleftrightarrow> T = T_float \<or> T = T_double \<or> T = T_long_double"

definition is_byte :: "ctype \<Rightarrow> bool" where
  "is_byte T \<longleftrightarrow> T = T_signed_char \<or> T = T_unsigned_char"

definition is_supported_number :: "ctype \<Rightarrow> bool" where
  "is_supported_number T \<longleftrightarrow> is_byte T \<or> is_uniform_real T \<or> is_uniform_int T"

subsection \<open>Ranges and conversions of the integer types\<close>

fun bits :: "data_model \<Rightarrow> ctype \<Rightarrow> nat" where
  "bits dm T_bool = 1"
| "bits dm T_char = 8"
| "bits dm T_signed_char = 8"
| "bits dm T_unsigned_char = 8"
| "bits dm T_short = short_bits dm"
| "bits dm T_unsigned_short = short_bits dm"
| "bits dm T_int = int_bits dm"
| "bits dm T_unsigned_int = int_bits dm"
| "bits dm T_long = long_bits dm"
| "bits dm T_unsigned_long = long_bits dm"
| "bits dm T_long_long = long_long_bits dm"
| "bits dm T_unsigned_long_long = long_long_bits dm"
| "bits dm _ = 0"

definition min_value :: "data_model \<Rightarrow> ctype \<Rightarrow> int" where
  "min_value dm T = (if is_signed dm T then - (2 ^ (bits dm T - 1)) else 0)"

definition max_value :: "data_model \<Rightarrow> ctype \<Rightarrow> int" where
  "max_value dm T =
     (if is_signed dm T then 2 ^ (bits dm T - 1) - 1 else 2 ^ bits dm T - 1)"

definition in_range :: "data_model \<Rightarrow> ctype \<Rightarrow> int \<Rightarrow> bool" where
  "in_range dm T i \<longleftrightarrow> min_value dm T \<le> i \<and> i \<le> max_value dm T"

text \<open>
  \<open>static_cast<T>(i)\<close> to an integer type: the value modulo \<open>2 ^ bits\<close>, read as
  two's complement when \<open>T\<close> is signed; to \<open>bool\<close>, whether the value is not zero.
\<close>

definition convert_integral :: "data_model \<Rightarrow> ctype \<Rightarrow> int \<Rightarrow> int" where
  "convert_integral dm T i =
     (if T = T_bool then (if i = 0 then 0 else 1)
      else if is_signed dm T
        then (i + 2 ^ (bits dm T - 1)) mod 2 ^ bits dm T - 2 ^ (bits dm T - 1)
      else i mod 2 ^ bits dm T)"

subsection \<open>\<open>std::common_type\<close>\<close>

text \<open>
  Modelled from the C++ standard: \<open>std::common_type<A, B>::type\<close> is the type of
  \<open>false ? declval<A>() : declval<B>()\<close>. Operands of one type keep it; two
  different arithmetic types undergo the usual arithmetic conversions (integral
  promotion first); a pair with \<open>struct common\<close> has no common type.
\<close>

fun rank :: "ctype \<Rightarrow> nat" where
  "rank T_bool = 0"
| "rank T_char = 1"
| "rank T_signed_char = 1"
| "rank T_unsigned_char = 1"
| "rank T_short = 2"
| "rank T_unsigned_short = 2"
| "rank T_int = 3"
| "rank T_unsigned_int = 3"
| "rank T_long = 4"
| "rank T_unsigned_long = 4"
| "rank T_long_long = 5"
| "rank T_unsigned_long_long = 5"
| "rank _ = 0"

fun to_unsigned :: "ctype \<Rightarrow> ctype" where
  "to_unsigned T_int = T_unsigned_int"
| "to_unsigned T_long = T_unsigned_long"
| "to_unsigned T_long_long = T_unsigned_long_long"
| "to_unsigned T = T"

definition promote :: "data_model \<Rightarrow> ctype \<Rightarrow> ctype" where
  "promote dm T =
     (if is_integral T \<and> rank T < rank T_int
      then (if min_value dm T_int \<le> min_value dm T \<and> max_value dm T \<le> max_value dm T_int
            then T_int else T_unsigned_int)
      else T)"

definition usual_arithmetic_conversions :: "data_model \<Rightarrow> ctype \<Rightarrow> ctype \<Rightarrow> ctype" where
  "usual_arithmetic_conversions dm X Y =
     (if X = T_long_double \<or> Y = T_long_double then T_long_double
      else if X = T_double \<or> Y = T_double then T_double
      else if X = T_float \<or> Y = T_float then T_float
      else if X = Y then X
      else if is_signed dm X = is_signed dm Y then (if rank X < rank Y then Y else X)
      else let U = (if is_signed dm X then Y else X);
               S = (if is_signed dm X then X else Y)
           in if rank S \<le> rank U then U
              else if max_value dm U \<le> max_value dm S then S
              else to_unsigned S)"

definition common_type :: "data_model \<Rightarrow> ctype \<Rightarrow> ctype \<Rightarrow> ctype option" where
  "common_type dm A B =
     (if A = B then Some A
      else if is_arithmetic A \<and> is_arithmetic B
        then Some (usual_arithmetic_conversions dm (promote dm A) (promote dm B))
      else None)"

section \<open>Values, the library and the engine\<close>

text \<open>
  A bound or a result is an integer of some integer type or a floating-point number.
  The floating-point numbers are a type parameter \<open>'f\<close>: their arithmetic, their
  comparison and their conversions belong to the platform.
\<close>

datatype 'f number = Integer_value int | Real_value 'f

text \<open>
  What \<open>random.hpp\<close> takes from the standard library and the language, over an
  engine state \<open>'e\<close>: one draw of \<open>std::uniform_int_distribution<A>{a, b}\<close> and of
  \<open>std::uniform_real_distribution<A>{a, b}\<close> from an engine (the value and the
  engine afterwards), \<open><\<close> and \<open><=\<close> on floating-point numbers, whether
  \<open>b - a <= std::numeric_limits<A>::max()\<close> holds for two numbers of type \<open>A\<close>,
  and \<open>static_cast\<close> from and to a floating-point type.
\<close>

record ('f, 'e) library =
  uniform_int_distribution :: "ctype \<Rightarrow> int \<Rightarrow> int \<Rightarrow> 'e \<Rightarrow> int \<times> 'e"
  uniform_real_distribution :: "ctype \<Rightarrow> 'f \<Rightarrow> 'f \<Rightarrow> 'e \<Rightarrow> 'f \<times> 'e"
  real_less :: "'f \<Rightarrow> 'f \<Rightarrow> bool"
  real_le :: "'f \<Rightarrow> 'f \<Rightarrow> bool"
  real_span_ok :: "ctype \<Rightarrow> 'f \<Rightarrow> 'f \<Rightarrow> bool"
  int_to_real :: "ctype \<Rightarrow> int \<Rightarrow> 'f"
  real_to_real :: "ctype \<Rightarrow> 'f \<Rightarrow> 'f"
  real_to_int :: "ctype \<Rightarrow> 'f \<Rightarrow> int"

text \<open>
  The contract of \<open>std::uniform_int_distribution<A>\<close>: constructed with bounds
  \<open>a \<le> b\<close> of type \<open>A\<close>, a draw lies in \<open>[a, b]\<close>.
\<close>

definition int_distribution_ok :: "('f, 'e) library \<Rightarrow> data_model \<Rightarrow> bool" where
  "int_distribution_ok lib dm \<longleftrightarrow>
     (\<forall>A a b e. in_range dm A a \<and> in_range dm A b \<and> a \<le> b \<longrightarrow>
        a \<le> fst (uniform_int_distribution lib A a b e) \<and>
        fst (uniform_int_distribution lib A a b e) \<le> b)"

text \<open>
  The precondition of \<open>std::uniform_real_distribution<A>{a, b}\<close>: \<open>a <= b\<close> and
  \<open>b - a <= std::numeric_limits<A>::max()\<close>. Its contract: constructed with bounds
  that satisfy the precondition, a draw lies between them (the lower end is closed;
  the standard excludes the upper end, implementations can return it).
\<close>

definition real_precondition :: "('f, 'e) library \<Rightarrow> ctype \<Rightarrow> 'f \<Rightarrow> 'f \<Rightarrow> bool" where
  "real_precondition lib A a b \<longleftrightarrow> real_le lib a b \<and> real_span_ok lib A a b"

definition real_distribution_ok :: "('f, 'e) library \<Rightarrow> bool" where
  "real_distribution_ok lib \<longleftrightarrow>
     (\<forall>A a b e. real_precondition lib A a b \<longrightarrow>
        real_le lib a (fst (uniform_real_distribution lib A a b e)) \<and>
        real_le lib (fst (uniform_real_distribution lib A a b e)) b)"

text \<open>
  Floating-point numbers that compare equal are one value: a library with this
  property does not tell the two zeros apart.
\<close>

definition real_le_antisym :: "('f, 'e) library \<Rightarrow> bool" where
  "real_le_antisym lib \<longleftrightarrow> (\<forall>x y. real_le lib x y \<and> real_le lib y x \<longrightarrow> x = y)"


text \<open>
  The smaller and the larger of two floating-point bounds, by the comparison
  \<open>from < to\<close> that the overload makes.
\<close>

definition real_min :: "('f, 'e) library \<Rightarrow> 'f \<Rightarrow> 'f \<Rightarrow> 'f" where
  "real_min lib x y = (if real_less lib x y then x else y)"

definition real_max :: "('f, 'e) library \<Rightarrow> 'f \<Rightarrow> 'f \<Rightarrow> 'f" where
  "real_max lib x y = (if real_less lib x y then y else x)"

text \<open>
  The state of the process: the static data member \<open>engine\<close> of
  \<open>basic_random_static<Engine>\<close>, and whatever else the process holds (the
  extension of the record).
\<close>

record 'e process =
  engine :: 'e

datatype failure = No_matching_overload | Undefined_behaviour

text \<open>
  \<open>std::uniform_int_distribution<A>{ a, b }( engine )\<close>. The standard requires
  \<open>a \<le> b\<close>; the behaviour is undefined otherwise. The draw reads the engine and
  leaves it advanced.
\<close>

definition draw_int ::
  "('f, 'e) library \<Rightarrow> ctype \<Rightarrow> int \<Rightarrow> int \<Rightarrow> ('e, 'z) process_scheme \<Rightarrow>
     failure + int \<times> ('e, 'z) process_scheme" where
  "draw_int lib A a b s =
     (if a \<le> b
      then Inr (fst (uniform_int_distribution lib A a b (engine s)),
                s\<lparr>engine := snd (uniform_int_distribution lib A a b (engine s))\<rparr>)
      else Inl Undefined_behaviour)"

text \<open>
  \<open>std::uniform_real_distribution<A>{ a, b }( engine )\<close>. The standard requires
  \<open>a <= b\<close> and \<open>b - a <= std::numeric_limits<A>::max()\<close>; the behaviour is
  undefined otherwise.
\<close>

definition draw_real ::
  "('f, 'e) library \<Rightarrow> ctype \<Rightarrow> 'f \<Rightarrow> 'f \<Rightarrow> ('e, 'z) process_scheme \<Rightarrow>
     failure + 'f \<times> ('e, 'z) process_scheme" where
  "draw_real lib A a b s =
     (if real_precondition lib A a b
      then Inr (fst (uniform_real_distribution lib A a b (engine s)),
                s\<lparr>engine := snd (uniform_real_distribution lib A a b (engine s))\<rparr>)
      else Inl Undefined_behaviour)"

section \<open>The overloads of \<open>get\<close>\<close>

text \<open>\<open>get( A from, A to )\<close> for \<open>is_uniform_int<A>\<close>.\<close>

definition get_uniform_int ::
  "('f, 'e) library \<Rightarrow> ctype \<Rightarrow> int \<Rightarrow> int \<Rightarrow> ('e, 'z) process_scheme \<Rightarrow>
     failure + int \<times> ('e, 'z) process_scheme" where
  "get_uniform_int lib A from to s =
     (if from < to then draw_int lib A from to s
      else draw_int lib A to from s)"

text \<open>\<open>get( A from, A to )\<close> for \<open>is_uniform_real<A>\<close>.\<close>

definition get_uniform_real ::
  "('f, 'e) library \<Rightarrow> ctype \<Rightarrow> 'f \<Rightarrow> 'f \<Rightarrow> ('e, 'z) process_scheme \<Rightarrow>
     failure + 'f \<times> ('e, 'z) process_scheme" where
  "get_uniform_real lib A from to s =
     (if real_less lib from to then draw_real lib A from to s
      else draw_real lib A to from s)"

text \<open>
  \<open>get( A from, A to )\<close> for \<open>is_byte<A>\<close>. The inner call has two arguments of
  type \<open>short_t\<close>, which is \<open>short\<close> or \<open>unsigned short\<close>: it is the overload for
  \<open>is_uniform_int\<close>.
\<close>

definition short_t :: "data_model \<Rightarrow> ctype \<Rightarrow> ctype" where
  "short_t dm A = (if is_signed dm A then T_short else T_unsigned_short)"

definition get_byte ::
  "('f, 'e) library \<Rightarrow> data_model \<Rightarrow> ctype \<Rightarrow> int \<Rightarrow> int \<Rightarrow> ('e, 'z) process_scheme \<Rightarrow>
     failure + int \<times> ('e, 'z) process_scheme" where
  "get_byte lib dm A from to s =
     (case get_uniform_int lib (short_t dm A)
             (convert_integral dm (short_t dm A) from)
             (convert_integral dm (short_t dm A) to) s of
        Inl f \<Rightarrow> Inl f
      | Inr (v, s') \<Rightarrow> Inr (convert_integral dm A v, s'))"

text \<open>
  \<open>static_cast<C>\<close> of a bound of type \<open>A\<close>, as an integer when \<open>C\<close> is an integer
  type and as a floating-point number when \<open>C\<close> is a floating-point type. A value that
  has the type already is not converted.
\<close>

definition cast_int ::
  "('f, 'e) library \<Rightarrow> data_model \<Rightarrow> ctype \<Rightarrow> ctype \<Rightarrow> 'f number \<Rightarrow> int" where
  "cast_int lib dm A C v =
     (case v of
        Integer_value i \<Rightarrow> (if A = C then i else convert_integral dm C i)
      | Real_value x \<Rightarrow> convert_integral dm C (real_to_int lib C x))"

definition cast_real ::
  "('f, 'e) library \<Rightarrow> ctype \<Rightarrow> ctype \<Rightarrow> 'f number \<Rightarrow> 'f" where
  "cast_real lib A C v =
     (case v of
        Integer_value i \<Rightarrow> int_to_real lib C i
      | Real_value x \<Rightarrow> (if A = C then x else real_to_real lib C x))"

text \<open>
  The call \<open>get( static_cast<C>( from ), static_cast<C>( to ) )\<close> on bounds of the
  types \<open>A\<close> and \<open>B\<close>. Both arguments have the type \<open>C\<close>, so \<open>A\<close> is deduced as
  \<open>C\<close> and the overload is the one whose trait accepts \<open>C\<close>; there is none when no
  trait does.
\<close>

definition get_single ::
  "('f, 'e) library \<Rightarrow> data_model \<Rightarrow> ctype \<Rightarrow> ctype \<Rightarrow> ctype \<Rightarrow> 'f number \<Rightarrow> 'f number \<Rightarrow>
     ('e, 'z) process_scheme \<Rightarrow> failure + 'f number \<times> ('e, 'z) process_scheme" where
  "get_single lib dm A B C from to s =
     (if is_uniform_int C then
        (case get_uniform_int lib C (cast_int lib dm A C from) (cast_int lib dm B C to) s of
           Inl f \<Rightarrow> Inl f
         | Inr (v, s') \<Rightarrow> Inr (Integer_value v, s'))
      else if is_uniform_real C then
        (case get_uniform_real lib C (cast_real lib A C from) (cast_real lib B C to) s of
           Inl f \<Rightarrow> Inl f
         | Inr (v, s') \<Rightarrow> Inr (Real_value v, s'))
      else if is_byte C then
        (case get_byte lib dm C (cast_int lib dm A C from) (cast_int lib dm B C to) s of
           Inl f \<Rightarrow> Inl f
         | Inr (v, s') \<Rightarrow> Inr (Integer_value v, s'))
      else Inl No_matching_overload)"

text \<open>
  \<open>get<Key>( A from, B to )\<close>, the overload for the common type \<open>C\<close>:
  \<open>return get( static_cast<C>( from ), static_cast<C>( to ) )\<close>.
\<close>

definition get_common ::
  "('f, 'e) library \<Rightarrow> data_model \<Rightarrow> ctype \<Rightarrow> ctype \<Rightarrow> 'f number \<Rightarrow> 'f number \<Rightarrow>
     ('e, 'z) process_scheme \<Rightarrow> failure + 'f number \<times> ('e, 'z) process_scheme" where
  "get_common lib dm A B from to s =
     (case common_type dm A B of
        None \<Rightarrow> Inl No_matching_overload
      | Some C \<Rightarrow> get_single lib dm A B C from to s)"

section \<open>Overload resolution\<close>

text \<open>
  A call names \<open>get\<close> with no template argument, \<open>get( x, y )\<close>, or with its first
  template argument written out, \<open>get<K>( x, y )\<close>. Calls that write out further
  template arguments are not modelled.
\<close>

datatype call = Plain | Keyed ctype

datatype overload = Uniform_int | Uniform_real | Byte | Common_type

record signature =
  chosen :: overload
  from_type :: ctype
  to_type :: ctype
  return_type :: ctype

text \<open>
  The \<open>enable_if\<close> condition of the overload for the common type, as the source
  writes it.
\<close>

definition common_enabled :: "data_model \<Rightarrow> ctype \<Rightarrow> ctype \<Rightarrow> ctype \<Rightarrow> bool" where
  "common_enabled dm Key A B \<longleftrightarrow>
     Key = T_common \<and> is_supported_number A \<and> is_supported_number B \<and>
     is_signed dm A \<noteq> is_unsigned dm B"

text \<open>
  The three overloads \<open>get( A from, A to )\<close> instantiated at \<open>A\<close>: the one whose
  \<open>enable_if\<close> condition holds returns \<open>A\<close>.
\<close>

definition single_overload :: "ctype \<Rightarrow> signature option" where
  "single_overload A =
     (if is_uniform_int A
        then Some \<lparr>chosen = Uniform_int, from_type = A, to_type = A, return_type = A\<rparr>
      else if is_uniform_real A
        then Some \<lparr>chosen = Uniform_real, from_type = A, to_type = A, return_type = A\<rparr>
      else if is_byte A
        then Some \<lparr>chosen = Byte, from_type = A, to_type = A, return_type = A\<rparr>
      else None)"

text \<open>
  An argument of type \<open>a\<close> initialises a parameter of type \<open>p\<close> when the types are
  one, or both are arithmetic (an implicit conversion).
\<close>

definition convertible :: "ctype \<Rightarrow> ctype \<Rightarrow> bool" where
  "convertible a p \<longleftrightarrow> a = p \<or> (is_arithmetic a \<and> is_arithmetic p)"

text \<open>
  Modelled from the C++ standard (template argument deduction). In \<open>get( x, y )\<close>
  the parameter \<open>A\<close> of the three overloads \<open>get( A from, A to )\<close> is deduced from
  both arguments, which must have one type; \<open>Key\<close> appears in no function parameter
  of the fourth overload and cannot be deduced. In \<open>get<K>( x, y )\<close> the argument
  \<open>K\<close> is \<open>A\<close> for the first three overloads, whose parameters then take converted
  arguments, and \<open>Key\<close> for the fourth, which deduces \<open>A\<close> and \<open>B\<close> and has the
  default \<open>C = std::common_type<A, B>::type\<close>.
\<close>

fun resolve :: "data_model \<Rightarrow> call \<Rightarrow> ctype \<Rightarrow> ctype \<Rightarrow> signature option" where
  "resolve dm Plain a b = (if a = b then single_overload a else None)"
| "resolve dm (Keyed K) a b =
     (if common_enabled dm K a b then
        (case common_type dm a b of
           None \<Rightarrow> None
         | Some C \<Rightarrow>
             Some \<lparr>chosen = Common_type, from_type = a, to_type = b, return_type = C\<rparr>)
      else if convertible a K \<and> convertible b K then single_overload K
      else None)"

text \<open>
  The whole call: the overload is chosen from the types, at compile time; a call with
  no overload does not compile. The chosen overload runs on the arguments, converted
  to the types of its parameters.
\<close>

definition get ::
  "('f, 'e) library \<Rightarrow> data_model \<Rightarrow> call \<Rightarrow> ctype \<Rightarrow> ctype \<Rightarrow> 'f number \<Rightarrow> 'f number \<Rightarrow>
     ('e, 'z) process_scheme \<Rightarrow> failure + 'f number \<times> ('e, 'z) process_scheme" where
  "get lib dm c a b from to s =
     (case resolve dm c a b of
        None \<Rightarrow> Inl No_matching_overload
      | Some sg \<Rightarrow>
          (case chosen sg of
             Uniform_int \<Rightarrow>
               (case get_uniform_int lib (return_type sg)
                       (cast_int lib dm a (from_type sg) from)
                       (cast_int lib dm b (to_type sg) to) s of
                  Inl f \<Rightarrow> Inl f
                | Inr (v, s') \<Rightarrow> Inr (Integer_value v, s'))
           | Uniform_real \<Rightarrow>
               (case get_uniform_real lib (return_type sg)
                       (cast_real lib a (from_type sg) from)
                       (cast_real lib b (to_type sg) to) s of
                  Inl f \<Rightarrow> Inl f
                | Inr (v, s') \<Rightarrow> Inr (Real_value v, s'))
           | Byte \<Rightarrow>
               (case get_byte lib dm (return_type sg)
                       (cast_int lib dm a (from_type sg) from)
                       (cast_int lib dm b (to_type sg) to) s of
                  Inl f \<Rightarrow> Inl f
                | Inr (v, s') \<Rightarrow> Inr (Integer_value v, s'))
           | Common_type \<Rightarrow> get_common lib dm a b from to s))"

text \<open>A bound \<open>v\<close> of the static type \<open>T\<close>.\<close>

definition has_type :: "data_model \<Rightarrow> ctype \<Rightarrow> 'f number \<Rightarrow> bool" where
  "has_type dm T v \<longleftrightarrow>
     (case v of
        Integer_value i \<Rightarrow> is_integral T \<and> in_range dm T i
      | Real_value x \<Rightarrow> is_floating_point T)"

section \<open>Libraries to run the sampler on\<close>

text \<open>
  A small instance of the library, over the rationals: the engine is the linear
  congruential generator \<open>minstd_rand0\<close>, the integer distribution reduces the state
  modulo the size of the interval, the real distribution scales it. Every pair of
  rationals is ordered and no difference overflows.
\<close>

definition minstd_step :: "int \<Rightarrow> int" where
  "minstd_step e = (16807 * e) mod 2147483647"

definition toy_library :: "(rat, int) library" where
  "toy_library =
     \<lparr>uniform_int_distribution =
        (\<lambda>A a b e. (a + e mod (b - a + 1), minstd_step e)),
      uniform_real_distribution =
        (\<lambda>A a b e. (a + (b - a) * (of_int (e mod 2147483647) / 2147483647), minstd_step e)),
      real_less = (\<lambda>x y. x < y),
      real_le = (\<lambda>x y. x \<le> y),
      real_span_ok = (\<lambda>A a b. True),
      int_to_real = (\<lambda>C i. of_int i),
      real_to_real = (\<lambda>C x. x),
      real_to_int = (\<lambda>C x. if x < 0 then - \<lfloor>- x\<rfloor> else \<lfloor>x\<rfloor>)\<rparr>"

text \<open>
  An instance with the special values of IEEE 754: a number is NaN, an infinity or a
  finite rational. Rounding is not modelled; a result beyond the largest finite value
  of the type overflows to an infinity. \<open>float\<close> has the range of binary32,
  \<open>double\<close> and \<open>long double\<close> that of binary64. The real distribution computes
  \<open>u * (b - a) + a\<close> with \<open>u\<close> in \<open>[0, 1)\<close> taken from the engine.
\<close>

datatype ieee = NaN | Minus_infinity | Finite rat | Plus_infinity

fun largest_finite :: "ctype \<Rightarrow> rat" where
  "largest_finite T_float = (2 ^ 24 - 1) * 2 ^ 104"
| "largest_finite _ = (2 ^ 53 - 1) * 2 ^ 971"

definition overflow :: "ctype \<Rightarrow> rat \<Rightarrow> ieee" where
  "overflow A r =
     (if largest_finite A < r then Plus_infinity
      else if r < - largest_finite A then Minus_infinity
      else Finite r)"

fun representable :: "ctype \<Rightarrow> ieee \<Rightarrow> bool" where
  "representable A (Finite r) = (- largest_finite A \<le> r \<and> r \<le> largest_finite A)"
| "representable A _ = True"

fun ieee_less :: "ieee \<Rightarrow> ieee \<Rightarrow> bool" where
  "ieee_less NaN _ = False"
| "ieee_less _ NaN = False"
| "ieee_less _ Minus_infinity = False"
| "ieee_less Minus_infinity _ = True"
| "ieee_less Plus_infinity _ = False"
| "ieee_less _ Plus_infinity = True"
| "ieee_less (Finite a) (Finite b) = (a < b)"

definition ieee_le :: "ieee \<Rightarrow> ieee \<Rightarrow> bool" where
  "ieee_le x y \<longleftrightarrow> x \<noteq> NaN \<and> y \<noteq> NaN \<and> (x = y \<or> ieee_less x y)"

fun ieee_neg :: "ieee \<Rightarrow> ieee" where
  "ieee_neg NaN = NaN"
| "ieee_neg Minus_infinity = Plus_infinity"
| "ieee_neg Plus_infinity = Minus_infinity"
| "ieee_neg (Finite r) = Finite (- r)"

fun ieee_add :: "ctype \<Rightarrow> ieee \<Rightarrow> ieee \<Rightarrow> ieee" where
  "ieee_add A NaN _ = NaN"
| "ieee_add A _ NaN = NaN"
| "ieee_add A (Finite a) (Finite b) = overflow A (a + b)"
| "ieee_add A Plus_infinity Minus_infinity = NaN"
| "ieee_add A Minus_infinity Plus_infinity = NaN"
| "ieee_add A Plus_infinity _ = Plus_infinity"
| "ieee_add A _ Plus_infinity = Plus_infinity"
| "ieee_add A Minus_infinity _ = Minus_infinity"
| "ieee_add A _ Minus_infinity = Minus_infinity"

definition ieee_sub :: "ctype \<Rightarrow> ieee \<Rightarrow> ieee \<Rightarrow> ieee" where
  "ieee_sub A x y = ieee_add A x (ieee_neg y)"

fun is_zero :: "ieee \<Rightarrow> bool" where
  "is_zero (Finite r) = (r = 0)"
| "is_zero _ = False"

fun is_negative :: "ieee \<Rightarrow> bool" where
  "is_negative (Finite r) = (r < 0)"
| "is_negative Minus_infinity = True"
| "is_negative _ = False"

fun ieee_mul :: "ctype \<Rightarrow> ieee \<Rightarrow> ieee \<Rightarrow> ieee" where
  "ieee_mul A NaN _ = NaN"
| "ieee_mul A _ NaN = NaN"
| "ieee_mul A (Finite a) (Finite b) = overflow A (a * b)"
| "ieee_mul A x y =
     (if is_zero x \<or> is_zero y then NaN
      else if is_negative x = is_negative y then Plus_infinity
      else Minus_infinity)"

definition ieee_library :: "(ieee, int) library" where
  "ieee_library =
     \<lparr>uniform_int_distribution =
        (\<lambda>A a b e. (a + e mod (b - a + 1), minstd_step e)),
      uniform_real_distribution =
        (\<lambda>A a b e.
           (ieee_add A
              (ieee_mul A (Finite (of_int (e mod 2147483647) / 2147483647)) (ieee_sub A b a))
              a,
            minstd_step e)),
      real_less = ieee_less,
      real_le = ieee_le,
      real_span_ok =
        (\<lambda>A a b. representable A a \<and> representable A b \<and>
           ieee_le (ieee_sub A b a) (Finite (largest_finite A))),
      int_to_real = (\<lambda>C i. overflow C (of_int i)),
      real_to_real = (\<lambda>C x. case x of Finite r \<Rightarrow> overflow C r | _ \<Rightarrow> x),
      real_to_int =
        (\<lambda>C x. case x of
                  Finite r \<Rightarrow> (if r < 0 then - \<lfloor>- r\<rfloor> else \<lfloor>r\<rfloor>)
                | _ \<Rightarrow> 0)\<rparr>"

section \<open>Properties\<close>

subsection \<open>The platform and the toy library\<close>

lemma lp64_valid: "valid_model lp64"
  by (simp add: valid_model_def lp64_def)

lemma toy_library_ok: "int_distribution_ok toy_library dm"
proof -
  have "a \<le> a + e mod (b - a + 1) \<and> a + e mod (b - a + 1) \<le> b" if "a \<le> b" for a b e :: int
  proof -
    have "0 < b - a + 1" using that by simp
    then have "0 \<le> e mod (b - a + 1)" "e mod (b - a + 1) < b - a + 1"
      by (simp_all only: pos_mod_sign pos_mod_bound)
    then show ?thesis by linarith
  qed
  then show ?thesis
    by (simp add: int_distribution_ok_def toy_library_def)
qed

subsection \<open>The overload for integer types\<close>

lemma get_uniform_int_min_max:
  "get_uniform_int lib A from to s = draw_int lib A (min from to) (max from to) s"
  by (simp add: get_uniform_int_def min_def max_def)

lemma in_range_min_max:
  "in_range dm A x \<Longrightarrow> in_range dm A y \<Longrightarrow> in_range dm A (min x y) \<and> in_range dm A (max x y)"
  by (simp add: min_def max_def)

lemma in_range_between:
  "in_range dm A x \<Longrightarrow> in_range dm A y \<Longrightarrow> x \<le> v \<Longrightarrow> v \<le> y \<Longrightarrow> in_range dm A v"
  by (simp add: in_range_def)

lemma draw_int_bounds:
  assumes "int_distribution_ok lib dm" "in_range dm A a" "in_range dm A b" "a \<le> b"
  shows "\<exists>v s'. draw_int lib A a b s = Inr (v, s') \<and> a \<le> v \<and> v \<le> b"
  using assms unfolding int_distribution_ok_def draw_int_def by auto

lemma get_uniform_int_bounds:
  assumes "int_distribution_ok lib dm"
    and "in_range dm A from" and "in_range dm A to"
  shows "\<exists>v s'. get_uniform_int lib A from to s = Inr (v, s') \<and>
           min from to \<le> v \<and> v \<le> max from to \<and> in_range dm A v"
proof -
  have r: "in_range dm A (min from to)" "in_range dm A (max from to)"
    using in_range_min_max[OF assms(2,3)] by simp_all
  have "min from to \<le> max from to" by simp
  from draw_int_bounds[OF assms(1) r this, of s]
  obtain v s' where d: "draw_int lib A (min from to) (max from to) s = Inr (v, s')"
    and b: "min from to \<le> v" "v \<le> max from to" by blast
  have "in_range dm A v"
    using in_range_between[OF r b] .
  with d b show ?thesis by (simp add: get_uniform_int_min_max)
qed

lemma traits_exclusive:
  "is_uniform_int T \<Longrightarrow> \<not> is_uniform_real T \<and> \<not> is_byte T"
  "is_uniform_real T \<Longrightarrow> \<not> is_uniform_int T \<and> \<not> is_byte T"
  "is_byte T \<Longrightarrow> \<not> is_uniform_int T \<and> \<not> is_uniform_real T"
  by (auto simp: is_uniform_int_def is_uniform_real_def is_byte_def)

lemma get_plain_uniform_int:
  assumes "is_uniform_int A"
  shows "get lib dm Plain A A (Integer_value x) (Integer_value y) s =
           (case get_uniform_int lib A x y s of
              Inl f \<Rightarrow> Inl f
            | Inr (v, s') \<Rightarrow> Inr (Integer_value v, s'))"
  using assms
  by (simp add: get_def single_overload_def get_single_def cast_int_def)

subsection \<open>Ranges and conversions\<close>

lemma common_type_same: "common_type dm A A = Some A"
  by (simp add: common_type_def)

lemma bits_ge_8:
  "valid_model dm \<Longrightarrow> is_integral T \<Longrightarrow> T \<noteq> T_bool \<Longrightarrow> 8 \<le> bits dm T"
  by (cases T) (simp_all add: valid_model_def)

lemma signed_mod_id:
  fixes i :: int
  assumes "0 < n" "- (2 ^ (n - 1)) \<le> i" "i \<le> 2 ^ (n - 1) - 1"
  shows "(i + 2 ^ (n - 1)) mod 2 ^ n - 2 ^ (n - 1) = i"
proof -
  have p: "(2::int) ^ n = 2 * 2 ^ (n - 1)"
    using assms(1) by (cases n) simp_all
  have "0 \<le> i + 2 ^ (n - 1)" "i + 2 ^ (n - 1) < 2 ^ n"
    using assms(2,3) p by linarith+
  then have "(i + 2 ^ (n - 1)) mod 2 ^ n = i + 2 ^ (n - 1)"
    by (rule mod_pos_pos_trivial)
  then show ?thesis by simp
qed

lemma convert_integral_id:
  assumes "valid_model dm" "is_integral T" "in_range dm T i"
  shows "convert_integral dm T i = i"
proof (cases "T = T_bool")
  case True
  with assms(3) show ?thesis
    by (auto simp: convert_integral_def in_range_def min_value_def max_value_def)
next
  case False
  then have b: "0 < bits dm T" using bits_ge_8[OF assms(1,2)] by simp
  show ?thesis
  proof (cases "is_signed dm T")
    case True
    with assms(3) have "- (2 ^ (bits dm T - 1)) \<le> i" "i \<le> 2 ^ (bits dm T - 1) - 1"
      by (simp_all add: in_range_def min_value_def max_value_def)
    from signed_mod_id[OF b this] show ?thesis
      using True False by (simp add: convert_integral_def)
  next
    case u: False
    with assms(3) have "0 \<le> i" "i < 2 ^ bits dm T"
      by (simp_all add: in_range_def min_value_def max_value_def)
    then have "i mod 2 ^ bits dm T = i" by (rule mod_pos_pos_trivial)
    then show ?thesis using u False by (simp add: convert_integral_def)
  qed
qed

lemma in_range_signed:
  "is_signed dm T \<Longrightarrow> in_range dm T i \<longleftrightarrow> - (2 ^ (bits dm T - 1)) \<le> i \<and> i < 2 ^ (bits dm T - 1)"
  by (auto simp: in_range_def min_value_def max_value_def)

lemma in_range_unsigned:
  "\<not> is_signed dm T \<Longrightarrow> in_range dm T i \<longleftrightarrow> 0 \<le> i \<and> i < 2 ^ bits dm T"
  by (auto simp: in_range_def min_value_def max_value_def)

lemma in_range_widen:
  assumes "is_signed dm A = is_signed dm B" "bits dm A \<le> bits dm B" "in_range dm A i"
  shows "in_range dm B i"
proof (cases "is_signed dm A")
  case True
  have "bits dm A - 1 \<le> bits dm B - 1" using assms(2) by simp
  then have "(2::int) ^ (bits dm A - 1) \<le> 2 ^ (bits dm B - 1)"
    by (rule power_increasing) simp
  moreover have "- (2 ^ (bits dm A - 1)) \<le> i" "i < 2 ^ (bits dm A - 1)"
    using assms(3) True by (simp_all only: in_range_signed)
  ultimately have "- (2 ^ (bits dm B - 1)) \<le> i \<and> i < 2 ^ (bits dm B - 1)"
    by linarith
  moreover have "is_signed dm B" using True assms(1) by simp
  ultimately show ?thesis by (simp only: in_range_signed)
next
  case False
  have "(2::int) ^ bits dm A \<le> 2 ^ bits dm B"
    using assms(2) by (rule power_increasing) simp
  moreover have "0 \<le> i" "i < 2 ^ bits dm A"
    using assms(3) in_range_unsigned[OF False, of i] by blast+
  ultimately have "0 \<le> i \<and> i < 2 ^ bits dm B"
    by linarith
  moreover have "\<not> is_signed dm B" using False assms(1) by simp
  ultimately show ?thesis using in_range_unsigned[of dm B i] by blast
qed

lemma in_range_widen_mixed:
  assumes "\<not> is_signed dm A" "is_signed dm B" "bits dm A < bits dm B" "in_range dm A i"
  shows "in_range dm B i"
proof -
  have "bits dm A \<le> bits dm B - 1" using assms(3) by simp
  then have "(2::int) ^ bits dm A \<le> 2 ^ (bits dm B - 1)"
    by (rule power_increasing) simp
  moreover have "(0::int) \<le> 2 ^ (bits dm B - 1)" by simp
  moreover have "0 \<le> i" "i < 2 ^ bits dm A"
    using assms(4) in_range_unsigned[OF assms(1), of i] by blast+
  ultimately have "- (2 ^ (bits dm B - 1)) \<le> i \<and> i < 2 ^ (bits dm B - 1)"
    by linarith
  then show ?thesis using assms(2) by (simp only: in_range_signed)
qed

lemma byte_in_short:
  assumes "valid_model dm" "is_byte A" "in_range dm A i"
  shows "in_range dm (short_t dm A) i"
proof (rule in_range_widen[OF _ _ assms(3)])
  show "is_signed dm A = is_signed dm (short_t dm A)"
    by (simp add: short_t_def)
  show "bits dm A \<le> bits dm (short_t dm A)"
    using assms(1,2) by (auto simp: short_t_def is_byte_def valid_model_def)
qed

lemma short_t_uniform_int: "is_uniform_int (short_t dm A)"
  by (simp add: short_t_def is_uniform_int_def)

lemma short_t_integral: "is_integral (short_t dm A)"
  by (simp add: short_t_def)

lemma common_type_commute: "common_type dm a b = common_type dm b a"
proof (cases "a = b")
  case True then show ?thesis by simp
next
  case False
  have r: "rank (promote dm T) = 0 \<or> 3 \<le> rank (promote dm T)" for T
    by (cases T) (simp_all add: promote_def)
  have u: "usual_arithmetic_conversions dm X Y = usual_arithmetic_conversions dm Y X"
    if "is_arithmetic X" "is_arithmetic Y" "3 \<le> rank X \<or> is_floating_point X" "3 \<le> rank Y \<or> is_floating_point Y" for X Y
    using that
    by (cases X; cases Y; simp add: usual_arithmetic_conversions_def is_arithmetic_def Let_def)
  have p: "is_arithmetic T \<Longrightarrow> is_arithmetic (promote dm T) \<and> (3 \<le> rank (promote dm T) \<or> is_floating_point (promote dm T))" for T
    by (cases T) (simp_all add: promote_def is_arithmetic_def)
  show ?thesis using False u p
    by (auto simp: common_type_def)
qed

subsection \<open>Overload resolution and the whole call\<close>

lemma supported_cases:
  "is_supported_number T \<longleftrightarrow> is_uniform_int T \<or> is_uniform_real T \<or> is_byte T"
  by (auto simp: is_supported_number_def)

lemma single_overload_None: "single_overload A = None \<longleftrightarrow> \<not> is_supported_number A"
  by (simp add: single_overload_def is_supported_number_def)

lemma single_overload_Some:
  "single_overload A = Some sg \<Longrightarrow>
     is_supported_number A \<and> from_type sg = A \<and> to_type sg = A \<and> return_type sg = A \<and>
     chosen sg \<noteq> Common_type"
  by (auto simp: single_overload_def is_supported_number_def split: if_splits)

lemma common_not_supported: "\<not> is_supported_number T_common"
  by (simp add: is_supported_number_def is_byte_def is_uniform_real_def is_uniform_int_def)

lemma resolve_Plain_Some:
  "resolve dm Plain a b = Some sg \<Longrightarrow>
     a = b \<and> is_supported_number a \<and> return_type sg = a \<and> chosen sg \<noteq> Common_type"
  by (auto dest: single_overload_Some split: if_splits)

lemma resolve_Keyed_Some:
  "resolve dm (Keyed K) a b = Some sg \<Longrightarrow>
     (K = T_common \<and> common_enabled dm K a b \<and> chosen sg = Common_type \<and>
        common_type dm a b = Some (return_type sg) \<and> from_type sg = a \<and> to_type sg = b) \<or>
     (K \<noteq> T_common \<and> chosen sg \<noteq> Common_type \<and> is_supported_number K \<and>
        return_type sg = K \<and> convertible a K \<and> convertible b K)"
  by (auto simp: common_enabled_def common_not_supported
           dest: single_overload_Some split: if_splits option.splits)

lemma resolve_single:
  assumes "resolve dm c a b = Some sg" "chosen sg \<noteq> Common_type"
  shows "single_overload (return_type sg) = Some sg"
proof (cases c)
  case Plain
  with assms(1) have "a = b" "single_overload a = Some sg"
    by (simp_all split: if_splits)
  with single_overload_Some[of a sg] show ?thesis by simp
next
  case (Keyed K)
  with assms have "single_overload K = Some sg"
    by (auto split: if_splits option.splits)
  with single_overload_Some[of K sg] show ?thesis by simp
qed

lemma get_as_single:
  "get lib dm c a b x y s =
     (case resolve dm c a b of
        None \<Rightarrow> Inl No_matching_overload
      | Some sg \<Rightarrow> get_single lib dm a b (return_type sg) x y s)"
proof (cases "resolve dm c a b")
  case None
  then show ?thesis by (simp add: get_def)
next
  case (Some sg)
  show ?thesis
  proof (cases "chosen sg = Common_type")
    case True
    have "common_type dm a b = Some (return_type sg)"
    proof (cases c)
      case Plain
      with Some have "resolve dm Plain a b = Some sg" by simp
      from resolve_Plain_Some[OF this] True show ?thesis by simp
    next
      case (Keyed K)
      with Some have "resolve dm (Keyed K) a b = Some sg" by simp
      from resolve_Keyed_Some[OF this] True show ?thesis by blast
    qed
    then show ?thesis using Some True by (simp add: get_def get_common_def)
  next
    case False
    from resolve_single[OF Some False]
    consider "is_uniform_int (return_type sg)"
        "sg = \<lparr>chosen = Uniform_int, from_type = return_type sg,
                 to_type = return_type sg, return_type = return_type sg\<rparr>"
      | "\<not> is_uniform_int (return_type sg)" "is_uniform_real (return_type sg)"
        "sg = \<lparr>chosen = Uniform_real, from_type = return_type sg,
                 to_type = return_type sg, return_type = return_type sg\<rparr>"
      | "\<not> is_uniform_int (return_type sg)" "\<not> is_uniform_real (return_type sg)"
        "is_byte (return_type sg)"
        "sg = \<lparr>chosen = Byte, from_type = return_type sg,
                 to_type = return_type sg, return_type = return_type sg\<rparr>"
      by (auto simp: single_overload_def split: if_splits)
    then show ?thesis
    proof cases
      case 1
      from 1(2) have "chosen sg = Uniform_int" "from_type sg = return_type sg"
        "to_type sg = return_type sg"
        by (metis signature.select_convs(1), metis signature.select_convs(2),
            metis signature.select_convs(3))
      with 1(1) Some show ?thesis by (simp add: get_def get_single_def)
    next
      case 2
      from 2(3) have "chosen sg = Uniform_real" "from_type sg = return_type sg"
        "to_type sg = return_type sg"
        by (metis signature.select_convs(1), metis signature.select_convs(2),
            metis signature.select_convs(3))
      with 2(1,2) Some show ?thesis by (simp add: get_def get_single_def)
    next
      case 3
      from 3(4) have "chosen sg = Byte" "from_type sg = return_type sg"
        "to_type sg = return_type sg"
        by (metis signature.select_convs(1), metis signature.select_convs(2),
            metis signature.select_convs(3))
      with 3(1,2,3) Some show ?thesis by (simp add: get_def get_single_def)
    qed
  qed
qed

lemma draw_int_Inr:
  "a \<le> b \<Longrightarrow> \<exists>v s'. draw_int lib A a b s = Inr (v, s')"
  by (simp add: draw_int_def)

lemma get_uniform_int_Inr: "\<exists>v s'. get_uniform_int lib A x y s = Inr (v, s')"
  unfolding get_uniform_int_min_max by (rule draw_int_Inr) simp

lemma get_byte_Inr: "\<exists>v s'. get_byte lib dm A x y s = Inr (v, s')"
proof -
  obtain v s' where "get_uniform_int lib (short_t dm A)
      (convert_integral dm (short_t dm A) x) (convert_integral dm (short_t dm A) y) s = Inr (v, s')"
    using get_uniform_int_Inr by blast
  then show ?thesis by (simp add: get_byte_def)
qed

lemma get_uniform_real_min_max:
  "get_uniform_real lib A x y s = draw_real lib A (real_min lib x y) (real_max lib x y) s"
  by (simp add: get_uniform_real_def real_min_def real_max_def)

lemma draw_real_Inr:
  assumes "real_precondition lib A lo hi"
  shows "draw_real lib A lo hi s =
           Inr (fst (uniform_real_distribution lib A lo hi (engine s)),
                s\<lparr>engine := snd (uniform_real_distribution lib A lo hi (engine s))\<rparr>)"
  using assms by (simp add: draw_real_def)

lemma draw_real_undefined:
  assumes "\<not> real_precondition lib A lo hi"
  shows "draw_real lib A lo hi s = Inl Undefined_behaviour"
  using assms by (simp add: draw_real_def)

lemma get_single_real:
  assumes "is_uniform_real C"
  shows "get_single lib dm A B C x y s =
           (case draw_real lib C
                   (real_min lib (cast_real lib A C x) (cast_real lib B C y))
                   (real_max lib (cast_real lib A C x) (cast_real lib B C y)) s of
              Inl f \<Rightarrow> Inl f
            | Inr (v, s') \<Rightarrow> Inr (Real_value v, s'))"
  using assms traits_exclusive(2)[OF assms]
  by (simp add: get_single_def get_uniform_real_min_max)

lemma get_single_outcome:
  assumes "is_supported_number C"
  shows "if is_uniform_real C \<and>
            \<not> real_precondition lib C
                (real_min lib (cast_real lib A C x) (cast_real lib B C y))
                (real_max lib (cast_real lib A C x) (cast_real lib B C y))
         then get_single lib dm A B C x y s = Inl Undefined_behaviour
         else \<exists>v s'. get_single lib dm A B C x y s = Inr (v, s')"
proof -
  consider (int) "is_uniform_int C" | (real) "\<not> is_uniform_int C" "is_uniform_real C"
    | (byte) "\<not> is_uniform_int C" "\<not> is_uniform_real C" "is_byte C"
    using assms by (auto simp: is_supported_number_def)
  then show ?thesis
  proof cases
    case int
    obtain v s' where
      "get_uniform_int lib C (cast_int lib dm A C x) (cast_int lib dm B C y) s = Inr (v, s')"
      using get_uniform_int_Inr by blast
    with int traits_exclusive(1)[OF int] show ?thesis by (simp add: get_single_def)
  next
    case real
    show ?thesis
    proof (cases "real_precondition lib C
                (real_min lib (cast_real lib A C x) (cast_real lib B C y))
                (real_max lib (cast_real lib A C x) (cast_real lib B C y))")
      case True
      with real(2) show ?thesis
        by (simp add: get_single_real draw_real_Inr)
    next
      case False
      with real(2) show ?thesis
        by (simp add: get_single_real draw_real_undefined)
    qed
  next
    case byte
    obtain v s' where
      "get_byte lib dm C (cast_int lib dm A C x) (cast_int lib dm B C y) s = Inr (v, s')"
      using get_byte_Inr by blast
    with byte show ?thesis by (simp add: get_single_def)
  qed
qed

lemma promote_supported:
  assumes "is_supported_number T"
  shows "promote dm T \<in> {T_int, T_unsigned_int, T_long, T_unsigned_long, T_long_long,
           T_unsigned_long_long, T_float, T_double, T_long_double}"
  using assms
  by (cases T)
     (simp_all add: promote_def is_supported_number_def is_byte_def is_uniform_real_def
        is_uniform_int_def)

lemma usual_arithmetic_conversions_supported:
  assumes "X \<in> {T_int, T_unsigned_int, T_long, T_unsigned_long, T_long_long,
           T_unsigned_long_long, T_float, T_double, T_long_double}"
    and "Y \<in> {T_int, T_unsigned_int, T_long, T_unsigned_long, T_long_long,
           T_unsigned_long_long, T_float, T_double, T_long_double}"
  shows "is_supported_number (usual_arithmetic_conversions dm X Y)"
proof -
  have s: "is_supported_number X" "is_supported_number Y"
    using assms
    by (auto simp: is_supported_number_def is_byte_def is_uniform_real_def is_uniform_int_def)
  have t: "is_supported_number (to_unsigned X)" "is_supported_number (to_unsigned Y)"
    using assms
    by (auto simp: is_supported_number_def is_byte_def is_uniform_real_def is_uniform_int_def)
  have f: "is_supported_number T_float" "is_supported_number T_double"
    "is_supported_number T_long_double"
    by (simp_all add: is_supported_number_def is_uniform_real_def)
  show ?thesis
    using s t f by (simp add: usual_arithmetic_conversions_def Let_def)
qed

lemma supported_arithmetic: "is_supported_number T \<Longrightarrow> is_arithmetic T"
  by (auto simp: is_supported_number_def is_byte_def is_uniform_real_def is_uniform_int_def
        is_arithmetic_def)

lemma common_type_supported:
  assumes "is_supported_number a" "is_supported_number b"
  shows "\<exists>C. common_type dm a b = Some C \<and> is_supported_number C"
proof (cases "a = b")
  case True
  with assms show ?thesis by (simp add: common_type_def)
next
  case False
  have "is_supported_number (usual_arithmetic_conversions dm (promote dm a) (promote dm b))"
    by (rule usual_arithmetic_conversions_supported) (rule promote_supported, fact)+
  with False assms show ?thesis
    by (simp add: common_type_def supported_arithmetic)
qed

lemma resolve_return_supported:
  assumes "resolve dm c a b = Some sg"
  shows "is_supported_number (return_type sg)"
proof (cases c)
  case Plain
  with assms have "resolve dm Plain a b = Some sg" by simp
  from resolve_Plain_Some[OF this] show ?thesis by blast
next
  case (Keyed K)
  with assms have "resolve dm (Keyed K) a b = Some sg" by simp
  from resolve_Keyed_Some[OF this] show ?thesis
  proof
    assume h: "K = T_common \<and> common_enabled dm K a b \<and> chosen sg = Common_type \<and>
        common_type dm a b = Some (return_type sg) \<and> from_type sg = a \<and> to_type sg = b"
    then have "is_supported_number a" "is_supported_number b"
      by (simp_all add: common_enabled_def)
    from common_type_supported[OF this, of dm] h show ?thesis by auto
  next
    assume "K \<noteq> T_common \<and> chosen sg \<noteq> Common_type \<and> is_supported_number K \<and>
        return_type sg = K \<and> convertible a K \<and> convertible b K"
    then show ?thesis by simp
  qed
qed

subsection \<open>The overload for byte types\<close>

lemma get_plain:
  "is_supported_number A \<Longrightarrow> get lib dm Plain A A x y s = get_single lib dm A A A x y s"
  by (auto simp: get_as_single single_overload_def is_supported_number_def)

lemma get_byte_bounds:
  assumes "valid_model dm" "int_distribution_ok lib dm" "is_byte A"
    and "in_range dm A from" "in_range dm A to"
  shows "\<exists>w s'. get_uniform_int lib (short_t dm A) from to s = Inr (w, s') \<and>
           get_byte lib dm A from to s = Inr (w, s') \<and>
           min from to \<le> w \<and> w \<le> max from to \<and> in_range dm A w"
proof -
  let ?S = "short_t dm A"
  have r: "in_range dm ?S from" "in_range dm ?S to"
    using byte_in_short[OF assms(1,3)] assms(4,5) by simp_all
  have c: "convert_integral dm ?S from = from" "convert_integral dm ?S to = to"
    using convert_integral_id[OF assms(1) short_t_integral] r by simp_all
  from get_uniform_int_bounds[OF assms(2) r, of s]
  obtain w s' where g: "get_uniform_int lib ?S from to s = Inr (w, s')"
    and b: "min from to \<le> w" "w \<le> max from to" by blast
  have "in_range dm A (min from to)" "in_range dm A (max from to)"
    using in_range_min_max[OF assms(4,5)] by simp_all
  then have w: "in_range dm A w" using b by (rule in_range_between)
  have "is_integral A" using assms(3) by (auto simp: is_byte_def)
  then have "convert_integral dm A w = w"
    using convert_integral_id[OF assms(1) _ w] by simp
  then have "get_byte lib dm A from to s = Inr (w, s')"
    using g c by (simp add: get_byte_def)
  with g b w show ?thesis by simp
qed

subsection \<open>Values of a type\<close>

lemma uniform_int_integral: "is_uniform_int A \<Longrightarrow> is_integral A \<and> \<not> is_floating_point A"
  by (auto simp: is_uniform_int_def)

lemma byte_integral: "is_byte A \<Longrightarrow> is_integral A \<and> \<not> is_floating_point A"
  by (auto simp: is_byte_def)

lemma uniform_real_floating: "is_uniform_real A \<Longrightarrow> is_floating_point A \<and> \<not> is_integral A"
  by (auto simp: is_uniform_real_def)

lemma has_type_integral:
  assumes "has_type dm A x" "\<not> is_floating_point A"
  obtains i where "x = Integer_value i" "in_range dm A i"
  using assms by (cases x) (simp_all add: has_type_def)

lemma has_type_floating:
  assumes "has_type dm A x" "\<not> is_integral A"
  obtains r where "x = Real_value r"
  using assms by (cases x) (simp_all add: has_type_def)

lemma get_uniform_real_same:
  "get_uniform_real lib A r r s = draw_real lib A r r s"
  by (simp add: get_uniform_real_def)

lemma ieee_library_int_ok: "int_distribution_ok ieee_library dm"
proof -
  have "a \<le> a + e mod (b - a + 1) \<and> a + e mod (b - a + 1) \<le> b" if "a \<le> b" for a b e :: int
  proof -
    have "0 < b - a + 1" using that by simp
    then have "0 \<le> e mod (b - a + 1)" "e mod (b - a + 1) < b - a + 1"
      by (simp_all only: pos_mod_sign pos_mod_bound)
    then show ?thesis by linarith
  qed
  then show ?thesis
    by (simp add: int_distribution_ok_def ieee_library_def)
qed

lemma largest_finite_ge_1: "1 \<le> largest_finite A"
  by (cases A) simp_all

lemma overflow_id:
  "- largest_finite A \<le> r \<Longrightarrow> r \<le> largest_finite A \<Longrightarrow> overflow A r = Finite r"
  by (simp add: overflow_def)

lemma ieee_le_Finite: "ieee_le (Finite p) (Finite q) \<longleftrightarrow> p \<le> q"
  by (auto simp: ieee_le_def)

lemma ieee_precondition_finite:
  assumes "- largest_finite A \<le> p" "p \<le> q" "q \<le> largest_finite A"
    and "q - p \<le> largest_finite A"
  shows "real_precondition ieee_library A (Finite p) (Finite q)"
proof -
  have "- largest_finite A \<le> q + - p" using assms(2) largest_finite_ge_1[of A] by linarith
  moreover have "q + - p \<le> largest_finite A" using assms(4) by simp
  ultimately have "overflow A (q + - p) = Finite (q + - p)" by (rule overflow_id)
  then show ?thesis
    using assms by (simp add: real_precondition_def ieee_library_def ieee_sub_def ieee_le_Finite)
qed

lemma ieee_precondition_cases:
  assumes "real_precondition ieee_library A a b"
  obtains p q where "a = Finite p" "b = Finite q" "- largest_finite A \<le> p" "p \<le> q"
    "q \<le> largest_finite A" "q - p \<le> largest_finite A"
proof -
  from assms have le: "ieee_le a b" and ra: "representable A a" and rb: "representable A b"
    and sp: "ieee_le (ieee_sub A b a) (Finite (largest_finite A))"
    by (simp_all add: real_precondition_def ieee_library_def)
  from le sp obtain p q where f: "a = Finite p" "b = Finite q"
    by (cases a; cases b; simp add: ieee_le_def ieee_sub_def)
  from le f have pq: "p \<le> q" by (simp add: ieee_le_Finite)
  from ra rb f have r: "- largest_finite A \<le> p" "q \<le> largest_finite A" by simp_all
  have d: "q - p \<le> largest_finite A"
  proof (rule ccontr)
    assume "\<not> q - p \<le> largest_finite A"
    then have "overflow A (q + - p) = Plus_infinity" by (simp add: overflow_def)
    with sp f show False by (simp add: ieee_sub_def ieee_le_def)
  qed
  show ?thesis by (rule that[OF f r(1) pq r(2) d])
qed

lemma ieee_library_real_ok: "real_distribution_ok ieee_library"
  unfolding real_distribution_ok_def
proof (intro allI impI)
  fix A a b and e :: int
  assume "real_precondition ieee_library A a b"
  then obtain p q where f: "a = Finite p" "b = Finite q"
    and r: "- largest_finite A \<le> p" "p \<le> q" "q \<le> largest_finite A"
      "q - p \<le> largest_finite A"
    by (rule ieee_precondition_cases)
  define u :: rat where "u = of_int (e mod 2147483647) / 2147483647"
  have "0 \<le> e mod 2147483647" "e mod 2147483647 < 2147483647" by simp_all
  then have u: "0 \<le> u" "u \<le> 1" by (simp_all add: u_def)
  define d where "d = u * (q - p)"
  have d0: "0 \<le> d" using u(1) r(2) by (simp add: d_def)
  have "u * (q - p) \<le> 1 * (q - p)"
    by (rule mult_right_mono) (use u(2) r(2) in simp_all)
  then have d1: "d \<le> q - p" by (simp add: d_def)
  have m: "0 \<le> largest_finite A" using largest_finite_ge_1[of A] by linarith
  have "overflow A (q - p) = Finite (q - p)"
    by (rule overflow_id) (use r m in linarith)+
  then have e1: "ieee_sub A (Finite q) (Finite p) = Finite (q - p)"
    by (simp add: ieee_sub_def)
  have "overflow A d = Finite d"
    by (rule overflow_id) (use r m d0 d1 in linarith)+
  then have e2: "ieee_mul A (Finite u) (Finite (q - p)) = Finite d"
    by (simp add: d_def)
  have "overflow A (d + p) = Finite (d + p)"
    by (rule overflow_id) (use r m d0 d1 in linarith)+
  then have e3: "ieee_add A (Finite d) (Finite p) = Finite (d + p)"
    by simp
  have "fst (uniform_real_distribution ieee_library A (Finite p) (Finite q) e) =
      ieee_add A (ieee_mul A (Finite u) (ieee_sub A (Finite q) (Finite p))) (Finite p)"
    by (simp add: ieee_library_def u_def)
  then have v: "fst (uniform_real_distribution ieee_library A (Finite p) (Finite q) e) =
      Finite (d + p)"
    by (simp only: e1 e2 e3)
  have "p \<le> d + p" "d + p \<le> q" using d0 d1 by linarith+
  then have "ieee_le (Finite p) (Finite (d + p)) \<and> ieee_le (Finite (d + p)) (Finite q)"
    by (simp add: ieee_le_Finite)
  moreover have "real_le ieee_library = ieee_le" by (simp add: ieee_library_def)
  ultimately show "real_le ieee_library a (fst (uniform_real_distribution ieee_library A a b e)) \<and>
      real_le ieee_library (fst (uniform_real_distribution ieee_library A a b e)) b"
    unfolding f v by simp
qed

lemma ieee_library_antisym: "real_le_antisym ieee_library"
  unfolding real_le_antisym_def
proof (intro allI impI)
  fix x y assume "real_le ieee_library x y \<and> real_le ieee_library y x"
  then show "x = y"
    by (cases x; cases y) (auto simp: ieee_library_def ieee_le_def)
qed

subsection \<open>Swapped bounds and the state of the process\<close>

lemma supported_unsigned:
  "is_supported_number T \<Longrightarrow> is_unsigned dm T \<longleftrightarrow> \<not> is_signed dm T"
  by (auto simp: is_supported_number_def is_byte_def is_uniform_real_def is_uniform_int_def)

lemma common_enabled_iff:
  "common_enabled dm K a b \<longleftrightarrow>
     K = T_common \<and> is_supported_number a \<and> is_supported_number b \<and>
     is_signed dm a = is_signed dm b"
  using supported_unsigned[of b dm] by (auto simp: common_enabled_def)













subsection \<open>The common type\<close>

lemma fits_int_signed:
  assumes "is_signed dm T" "bits dm T \<le> int_bits dm"
  shows "min_value dm T_int \<le> min_value dm T \<and> max_value dm T \<le> max_value dm T_int"
proof -
  have "bits dm T - 1 \<le> int_bits dm - 1" using assms(2) by simp
  then have "(2::int) ^ (bits dm T - 1) \<le> 2 ^ (int_bits dm - 1)"
    by (rule power_increasing) simp
  then have "- ((2::int) ^ (int_bits dm - 1)) \<le> - (2 ^ (bits dm T - 1)) \<and>
             (2::int) ^ (bits dm T - 1) - 1 \<le> 2 ^ (int_bits dm - 1) - 1"
    by linarith
  moreover have "min_value dm T_int = - (2 ^ (int_bits dm - 1))"
    "max_value dm T_int = 2 ^ (int_bits dm - 1) - 1"
    by (simp_all add: min_value_def max_value_def)
  moreover have "min_value dm T = - (2 ^ (bits dm T - 1))"
    "max_value dm T = 2 ^ (bits dm T - 1) - 1"
    using assms(1) by (simp_all add: min_value_def max_value_def)
  ultimately show ?thesis by (simp only:)
qed

lemma fits_int_unsigned:
  assumes "\<not> is_signed dm T" "0 < int_bits dm"
  shows "min_value dm T_int \<le> min_value dm T \<and> max_value dm T \<le> max_value dm T_int
           \<longleftrightarrow> bits dm T < int_bits dm"
proof -
  have mi: "min_value dm T_int = - (2 ^ (int_bits dm - 1))"
    "max_value dm T_int = 2 ^ (int_bits dm - 1) - 1"
    by (simp_all add: min_value_def max_value_def)
  have mt: "min_value dm T = 0" "max_value dm T = 2 ^ bits dm T - 1"
    using assms(1) by (simp_all add: min_value_def max_value_def)
  have z: "- ((2::int) ^ (int_bits dm - 1)) \<le> 0" by simp
  have p: "(2::int) ^ bits dm T \<le> 2 ^ (int_bits dm - 1) \<longleftrightarrow> bits dm T \<le> int_bits dm - 1"
    by (rule power_increasing_iff) simp
  have q: "bits dm T \<le> int_bits dm - 1 \<longleftrightarrow> bits dm T < int_bits dm"
    using assms(2) by arith
  have "min_value dm T_int \<le> min_value dm T"
    unfolding mi mt by (rule z)
  moreover have "max_value dm T \<le> max_value dm T_int \<longleftrightarrow>
      (2::int) ^ bits dm T \<le> 2 ^ (int_bits dm - 1)"
    unfolding mi mt by linarith
  ultimately show ?thesis using p q by blast
qed

lemma promote_small:
  assumes "valid_model dm"
  shows "promote dm T_signed_char = T_int"
    and "promote dm T_unsigned_char = T_int"
    and "promote dm T_short = T_int"
    and "promote dm T_unsigned_short =
           (if short_bits dm < int_bits dm then T_int else T_unsigned_int)"
proof -
  have i: "16 \<le> int_bits dm" "16 \<le> short_bits dm" "short_bits dm \<le> int_bits dm"
    using assms by (simp_all add: valid_model_def)
  have sc: "min_value dm T_int \<le> min_value dm T_signed_char \<and>
            max_value dm T_signed_char \<le> max_value dm T_int"
    by (rule fits_int_signed) (use i in simp_all)
  have sh: "min_value dm T_int \<le> min_value dm T_short \<and>
            max_value dm T_short \<le> max_value dm T_int"
    by (rule fits_int_signed) (use i in simp_all)
  have uc: "min_value dm T_int \<le> min_value dm T_unsigned_char \<and>
            max_value dm T_unsigned_char \<le> max_value dm T_int"
    using fits_int_unsigned[of dm T_unsigned_char] i by simp
  have us: "min_value dm T_int \<le> min_value dm T_unsigned_short \<and>
            max_value dm T_unsigned_short \<le> max_value dm T_int
              \<longleftrightarrow> short_bits dm < int_bits dm"
    using fits_int_unsigned[of dm T_unsigned_short] i by simp
  show "promote dm T_signed_char = T_int"
    using sc by (simp add: promote_def)
  show "promote dm T_unsigned_char = T_int"
    using uc by (simp add: promote_def)
  show "promote dm T_short = T_int"
    using sh by (simp add: promote_def)
  show "promote dm T_unsigned_short =
           (if short_bits dm < int_bits dm then T_int else T_unsigned_int)"
    using us by (simp add: promote_def)
qed

lemma promote_large:
  "rank T \<ge> 3 \<or> \<not> is_integral T \<Longrightarrow> promote dm T = T"
  by (auto simp: promote_def)

lemma in_range_into:
  assumes "(is_signed dm A = is_signed dm C \<and> bits dm A \<le> bits dm C) \<or>
           (\<not> is_signed dm A \<and> is_signed dm C \<and> bits dm A < bits dm C)"
    and "in_range dm A i"
  shows "in_range dm C i"
  using assms in_range_widen in_range_widen_mixed by blast

lemma common_type_wider:
  assumes "valid_model dm"
    and "is_uniform_int a \<or> is_byte a" and "is_uniform_int b \<or> is_byte b"
    and "is_signed dm a = is_signed dm b"
  shows "\<exists>C. common_type dm a b = Some C \<and> (is_uniform_int C \<or> is_byte C) \<and>
           ((is_signed dm a = is_signed dm C \<and> bits dm a \<le> bits dm C) \<or>
            (\<not> is_signed dm a \<and> is_signed dm C \<and> bits dm a < bits dm C))"
proof -
  have i: "16 \<le> short_bits dm" "short_bits dm \<le> int_bits dm" "int_bits dm \<le> long_bits dm"
    "long_bits dm \<le> long_long_bits dm"
    using assms(1) by (simp_all add: valid_model_def)
  show ?thesis
    using assms(2,3,4) i
    by (cases a; cases b;
        simp add: is_uniform_int_def is_byte_def common_type_def is_arithmetic_def
          promote_small[OF assms(1)] promote_large usual_arithmetic_conversions_def Let_def)
qed

lemma convert_integral_in_range:
  assumes "valid_model dm" "is_uniform_int C \<or> is_byte C"
  shows "in_range dm C (convert_integral dm C i)"
proof -
  have ig: "is_integral C" "C \<noteq> T_bool"
    using assms(2) by (auto simp: is_uniform_int_def is_byte_def)
  then have b: "0 < bits dm C" using bits_ge_8[OF assms(1)] by fastforce
  show ?thesis
  proof (cases "is_signed dm C")
    case True
    have p: "(2::int) ^ bits dm C = 2 * 2 ^ (bits dm C - 1)"
      using b by (cases "bits dm C") simp_all
    have "0 \<le> (i + 2 ^ (bits dm C - 1)) mod 2 ^ bits dm C"
      "(i + 2 ^ (bits dm C - 1)) mod 2 ^ bits dm C < 2 ^ bits dm C"
      by simp_all
    then have "- (2 ^ (bits dm C - 1)) \<le>
        (i + 2 ^ (bits dm C - 1)) mod 2 ^ bits dm C - 2 ^ (bits dm C - 1) \<and>
        (i + 2 ^ (bits dm C - 1)) mod 2 ^ bits dm C - 2 ^ (bits dm C - 1) < 2 ^ (bits dm C - 1)"
      using p by linarith
    moreover have "convert_integral dm C i =
        (i + 2 ^ (bits dm C - 1)) mod 2 ^ bits dm C - 2 ^ (bits dm C - 1)"
      using True ig by (simp add: convert_integral_def)
    ultimately show ?thesis by (simp only: in_range_signed[OF True])
  next
    case False
    have "0 \<le> i mod 2 ^ bits dm C" "i mod 2 ^ bits dm C < 2 ^ bits dm C"
      by simp_all
    moreover have "convert_integral dm C i = i mod 2 ^ bits dm C"
      using False ig by (simp add: convert_integral_def)
    ultimately show ?thesis
      using in_range_unsigned[OF False, of "i mod 2 ^ bits dm C"] by simp
  qed
qed

lemma cast_int_in_range:
  assumes "valid_model dm" "is_uniform_int C \<or> is_byte C" "has_type dm A x"
  shows "in_range dm C (cast_int lib dm A C x)"
proof (cases x)
  case (Integer_value i)
  show ?thesis
  proof (cases "A = C")
    case True
    with assms(3) Integer_value show ?thesis by (simp add: cast_int_def has_type_def)
  next
    case False
    with Integer_value convert_integral_in_range[OF assms(1,2)] show ?thesis
      by (simp add: cast_int_def)
  qed
next
  case (Real_value r)
  with convert_integral_in_range[OF assms(1,2)] show ?thesis
    by (simp add: cast_int_def)
qed

lemma cast_int_keeps:
  assumes "valid_model dm" "is_uniform_int C \<or> is_byte C" "in_range dm C i"
  shows "cast_int lib dm A C (Integer_value i) = i"
proof -
  have "is_integral C" using assms(2) by (auto simp: is_uniform_int_def is_byte_def)
  from convert_integral_id[OF assms(1) this assms(3)] show ?thesis
    by (simp add: cast_int_def)
qed

lemma get_single_integral_bounds:
  assumes "valid_model dm" "int_distribution_ok lib dm" "is_uniform_int C \<or> is_byte C"
    and "in_range dm C (cast_int lib dm A C x)" "in_range dm C (cast_int lib dm B C y)"
  shows "\<exists>v s'. get_single lib dm A B C x y s = Inr (Integer_value v, s') \<and>
           min (cast_int lib dm A C x) (cast_int lib dm B C y) \<le> v \<and>
           v \<le> max (cast_int lib dm A C x) (cast_int lib dm B C y) \<and> in_range dm C v"
proof (cases "is_uniform_int C")
  case True
  from get_uniform_int_bounds[OF assms(2,4,5), of s]
  obtain v s' where
    "get_uniform_int lib C (cast_int lib dm A C x) (cast_int lib dm B C y) s = Inr (v, s')"
    "min (cast_int lib dm A C x) (cast_int lib dm B C y) \<le> v"
    "v \<le> max (cast_int lib dm A C x) (cast_int lib dm B C y)" "in_range dm C v"
    by blast
  with True show ?thesis by (simp add: get_single_def)
next
  case False
  with assms(3) have b: "is_byte C" by simp
  from get_byte_bounds[OF assms(1,2) b assms(4,5), of s]
  obtain v s' where
    "get_byte lib dm C (cast_int lib dm A C x) (cast_int lib dm B C y) s = Inr (v, s')"
    "min (cast_int lib dm A C x) (cast_int lib dm B C y) \<le> v"
    "v \<le> max (cast_int lib dm A C x) (cast_int lib dm B C y)" "in_range dm C v"
    by blast
  with False traits_exclusive(3)[OF b] b show ?thesis by (simp add: get_single_def)
qed

lemma get_single_has_type:
  assumes "valid_model dm" "int_distribution_ok lib dm" "is_supported_number C"
    and "has_type dm A x" "has_type dm B y"
  shows "(\<exists>v s'. get_single lib dm A B C x y s = Inr (v, s') \<and> has_type dm C v) \<or>
         (is_uniform_real C \<and> get_single lib dm A B C x y s = Inl Undefined_behaviour)"
proof (cases "is_uniform_real C")
  case True
  show ?thesis
  proof (cases "real_precondition lib C
                (real_min lib (cast_real lib A C x) (cast_real lib B C y))
                (real_max lib (cast_real lib A C x) (cast_real lib B C y))")
    case pre: True
    have "has_type dm C (Real_value v)" for v :: 'a
      using uniform_real_floating[OF True] by (simp add: has_type_def)
    then show ?thesis
      by (simp add: get_single_real[OF True] draw_real_Inr[OF pre])
  next
    case False
    with True show ?thesis
      by (simp add: get_single_real draw_real_undefined)
  qed
next
  case False
  with assms(3) have c: "is_uniform_int C \<or> is_byte C"
    by (auto simp: is_supported_number_def)
  then have ig: "is_integral C"
    by (auto simp: is_uniform_int_def is_byte_def)
  from get_single_integral_bounds[OF assms(1,2) c
      cast_int_in_range[OF assms(1) c assms(4)] cast_int_in_range[OF assms(1) c assms(5)], of s]
  obtain v s' where "get_single lib dm A B C x y s = Inr (Integer_value v, s')"
    "in_range dm C v" by blast
  moreover from this ig have "has_type dm C (Integer_value v)"
    by (simp add: has_type_def)
  ultimately show ?thesis by blast
qed

lemma get_keyed_common:
  assumes "common_enabled dm T_common a b" "common_type dm a b = Some C"
  shows "resolve dm (Keyed T_common) a b =
           Some \<lparr>chosen = Common_type, from_type = a, to_type = b, return_type = C\<rparr>"
    and "get lib dm (Keyed T_common) a b x y s = get_single lib dm a b C x y s"
  using assms by (simp_all add: get_as_single)

lemma get_keyed_common_rejected:
  assumes "\<not> common_enabled dm T_common a b"
  shows "resolve dm (Keyed T_common) a b = None"
    and "get lib dm (Keyed T_common) a b x y s = Inl No_matching_overload"
proof -
  have "single_overload T_common = None"
    using common_not_supported by (simp add: single_overload_None)
  with assms show "resolve dm (Keyed T_common) a b = None" by simp
  then show "get lib dm (Keyed T_common) a b x y s = Inl No_matching_overload"
    by (simp add: get_as_single)
qed

lemma integral_supported:
  "is_supported_number T \<Longrightarrow> is_integral T \<Longrightarrow> is_uniform_int T \<or> is_byte T"
  by (auto simp: is_supported_number_def is_uniform_real_def)

section \<open>The claims\<close>

text \<open>
  C2. For every supported integral type \<open>A\<close> (\<open>is_uniform_int\<close>) and every pair of
  bounds of type \<open>A\<close>, the call \<open>get(from, to)\<close> returns a value \<open>v\<close> with
  \<open>min(from, to) \<le> v \<le> max(from, to)\<close>, given that the library's integer
  distribution keeps its contract.
\<close>

theorem get_integral_within_bounds:
  assumes "int_distribution_ok lib dm"
    and "is_uniform_int A"
    and "in_range dm A from" and "in_range dm A to"
  shows "\<exists>v s'. get lib dm Plain A A (Integer_value from) (Integer_value to) s =
                   Inr (Integer_value v, s') \<and>
                 min from to \<le> v \<and> v \<le> max from to"
proof -
  from get_uniform_int_bounds[OF assms(1,3,4), of s]
  obtain v s' where "get_uniform_int lib A from to s = Inr (v, s')"
    and "min from to \<le> v" "v \<le> max from to" by blast
  then show ?thesis
    by (simp add: get_plain_uniform_int[OF assms(2)])
qed

theorem get_integral_within_bounds_witness:
  "\<exists>v s'. get toy_library lp64 Plain T_int T_int (Integer_value 6) (Integer_value 1)
             \<lparr>engine = 42\<rparr> = Inr (Integer_value v, s') \<and> 1 \<le> v \<and> v \<le> 6"
proof -
  have "is_uniform_int T_int" by (simp add: is_uniform_int_def)
  moreover have "in_range lp64 T_int 6" "in_range lp64 T_int 1"
    by (simp_all add: in_range_def min_value_def max_value_def lp64_def)
  ultimately show ?thesis
    using get_integral_within_bounds[OF toy_library_ok, of T_int lp64 6 1 "\<lparr>engine = 42\<rparr>"]
    by simp
qed

text \<open>
  C8, as the code has it. The only failure of \<open>get\<close> at run time is a violated
  precondition of \<open>std::uniform_real_distribution\<close>. A call is rejected exactly when
  it has no overload, which is decided from the types alone and stops the build. A
  call on two bounds of one supported type, and a call \<open>get<common>\<close> that the
  \<open>enable_if\<close> condition accepts, has an overload. A call with an overload returns a
  value, unless its overload is the one for floating-point types and the bounds, as
  the overload orders them, violate \<open>a <= b\<close> or \<open>b - a <= max\<close>: \<open>get\<close> does not
  check them, and the behaviour is then undefined.
\<close>

theorem get_fails_only_on_real_precondition:
  "(get lib dm c a b x y s = Inl No_matching_overload \<longleftrightarrow> resolve dm c a b = None) \<and>
   (c = Plain \<and> a = b \<and> is_supported_number a \<or>
    c = Keyed T_common \<and> common_enabled dm T_common a b \<longrightarrow>
      resolve dm c a b \<noteq> None) \<and>
   (\<forall>sg. resolve dm c a b = Some sg \<longrightarrow>
      (if is_uniform_real (return_type sg) \<and>
          \<not> real_precondition lib (return_type sg)
              (real_min lib (cast_real lib a (return_type sg) x)
                 (cast_real lib b (return_type sg) y))
              (real_max lib (cast_real lib a (return_type sg) x)
                 (cast_real lib b (return_type sg) y))
       then get lib dm c a b x y s = Inl Undefined_behaviour
       else \<exists>v s'. get lib dm c a b x y s = Inr (v, s')))"
proof (intro conjI allI impI)
  show "get lib dm c a b x y s = Inl No_matching_overload \<longleftrightarrow> resolve dm c a b = None"
  proof (cases "resolve dm c a b")
    case None
    then show ?thesis by (simp add: get_as_single)
  next
    case (Some sg)
    from get_single_outcome[OF resolve_return_supported[OF Some], of lib a x b y dm s]
    have "get_single lib dm a b (return_type sg) x y s \<noteq> Inl No_matching_overload"
      by (auto split: if_splits)
    with Some show ?thesis by (simp add: get_as_single)
  qed
next
  assume "c = Plain \<and> a = b \<and> is_supported_number a \<or>
          c = Keyed T_common \<and> common_enabled dm T_common a b"
  then show "resolve dm c a b \<noteq> None"
  proof
    assume "c = Plain \<and> a = b \<and> is_supported_number a"
    then show ?thesis by (auto simp: single_overload_None)
  next
    assume k: "c = Keyed T_common \<and> common_enabled dm T_common a b"
    then have "is_supported_number a" "is_supported_number b"
      by (simp_all add: common_enabled_def)
    from common_type_supported[OF this, of dm] k show ?thesis by auto
  qed
next
  fix sg
  assume r: "resolve dm c a b = Some sg"
  from get_single_outcome[OF resolve_return_supported[OF r], of lib a x b y dm s] r
  show "if is_uniform_real (return_type sg) \<and>
          \<not> real_precondition lib (return_type sg)
              (real_min lib (cast_real lib a (return_type sg) x)
                 (cast_real lib b (return_type sg) y))
              (real_max lib (cast_real lib a (return_type sg) x)
                 (cast_real lib b (return_type sg) y))
       then get lib dm c a b x y s = Inl Undefined_behaviour
       else \<exists>v s'. get lib dm c a b x y s = Inr (v, s')"
    by (simp add: get_as_single)
qed

theorem get_fails_only_on_real_precondition_witness:
  "resolve lp64 Plain T_int T_int \<noteq> None \<and>
   (\<exists>v s'. get ieee_library lp64 Plain T_int T_int (Integer_value 6) (Integer_value 1)
              \<lparr>engine = 42\<rparr> = Inr (v, s')) \<and>
   resolve lp64 Plain T_double T_double \<noteq> None \<and>
   (\<exists>v s'. get ieee_library lp64 Plain T_double T_double (Real_value (Finite 1))
              (Real_value (Finite 0)) \<lparr>engine = 42\<rparr> = Inr (v, s')) \<and>
   resolve lp64 Plain T_int T_long = None \<and>
   get ieee_library lp64 Plain T_int T_long (Integer_value 6) (Integer_value 1)
     \<lparr>engine = 42\<rparr> = Inl No_matching_overload"
proof -
  have s: "is_supported_number T_int" "is_supported_number T_double"
    by (simp_all add: is_supported_number_def is_uniform_int_def is_uniform_real_def)
  have ri: "resolve lp64 Plain T_int T_int =
      Some \<lparr>chosen = Uniform_int, from_type = T_int, to_type = T_int, return_type = T_int\<rparr>"
    by (simp add: single_overload_def is_uniform_int_def)
  have rd: "resolve lp64 Plain T_double T_double =
      Some \<lparr>chosen = Uniform_real, from_type = T_double, to_type = T_double,
            return_type = T_double\<rparr>"
    by (simp add: single_overload_def is_uniform_int_def is_uniform_real_def)
  have rn: "resolve lp64 Plain T_int T_long = None" by simp
  have pre: "real_precondition ieee_library T_double (Finite 0) (Finite 1)"
    by (rule ieee_precondition_finite) (use largest_finite_ge_1[of T_double] in linarith)+
  have ni: "\<not> is_uniform_real T_int" by (simp add: is_uniform_real_def)
  have mm: "real_min ieee_library (Finite 1) (Finite 0) = Finite 0"
    "real_max ieee_library (Finite 1) (Finite 0) = Finite 1"
    by (simp_all add: real_min_def real_max_def ieee_library_def)
  note A = get_fails_only_on_real_precondition[of ieee_library lp64 Plain T_int T_int
      "Integer_value 6" "Integer_value 1" "\<lparr>engine = 42\<rparr>"]
  note B = get_fails_only_on_real_precondition[of ieee_library lp64 Plain T_double T_double
      "Real_value (Finite 1)" "Real_value (Finite 0)" "\<lparr>engine = 42\<rparr>"]
  note C = get_fails_only_on_real_precondition[of ieee_library lp64 Plain T_int T_long
      "Integer_value 6" "Integer_value 1" "\<lparr>engine = 42\<rparr>"]
  from A s(1) have a1: "resolve lp64 Plain T_int T_int \<noteq> None" by blast
  from A ri ni have a2: "\<exists>v s'. get ieee_library lp64 Plain T_int T_int (Integer_value 6)
      (Integer_value 1) \<lparr>engine = 42\<rparr> = Inr (v, s')"
    by simp
  from B s(2) have b1: "resolve lp64 Plain T_double T_double \<noteq> None" by blast
  from B rd pre mm have b2: "\<exists>v s'. get ieee_library lp64 Plain T_double T_double
      (Real_value (Finite 1)) (Real_value (Finite 0)) \<lparr>engine = 42\<rparr> = Inr (v, s')"
    by (simp add: cast_real_def)
  from C rn have c2: "get ieee_library lp64 Plain T_int T_long (Integer_value 6)
      (Integer_value 1) \<lparr>engine = 42\<rparr> = Inl No_matching_overload"
    by blast
  from a1 a2 b1 b2 rn c2 show ?thesis by blast
qed

text \<open>
  The claim as the specification states it fails on a bound that is NaN: the call
  \<open>get(1.0, NaN)\<close> on two \<open>double\<close>s is well typed and has an overload, \<open>1.0 < NaN\<close>
  is false, so the overload builds the distribution on \<open>{NaN, 1.0}\<close>, which violates
  \<open>a <= b\<close>; the library's formula yields NaN.
\<close>

theorem get_nan_bound_is_undefined:
  "has_type lp64 T_double (Real_value (Finite 1)) \<and>
   has_type lp64 T_double (Real_value NaN) \<and>
   resolve lp64 Plain T_double T_double \<noteq> None \<and>
   get ieee_library lp64 Plain T_double T_double (Real_value (Finite 1)) (Real_value NaN)
     \<lparr>engine = 42\<rparr> = Inl Undefined_behaviour \<and>
   fst (uniform_real_distribution ieee_library T_double NaN (Finite 1) 42) = NaN"
  by (simp add: has_type_def get_def single_overload_def is_uniform_int_def
        is_uniform_real_def cast_real_def get_uniform_real_def draw_real_def
        real_precondition_def ieee_library_def ieee_le_def ieee_sub_def)

text \<open>
  C5. For a byte type \<open>A\<close> (\<open>signed char\<close>, \<open>unsigned char\<close>), \<open>get(from, to)\<close>
  converts both bounds to \<open>short\<close> when \<open>A\<close> is signed and to \<open>unsigned short\<close>
  when it is unsigned (a type of at least 16 bits, so the bounds keep their values),
  samples with the overload for integer types, and converts the result \<open>w\<close> back to
  \<open>A\<close>: the conversion keeps the value, which is a value of \<open>A\<close> and lies in
  \<open>[min(from, to), max(from, to)]\<close>.
\<close>

theorem get_byte_widens_samples_narrows:
  assumes "valid_model dm" "int_distribution_ok lib dm" "is_byte A"
    and "in_range dm A from" "in_range dm A to"
  shows "short_t dm A = (if A = T_signed_char then T_short else T_unsigned_short) \<and>
         16 \<le> bits dm (short_t dm A) \<and>
         convert_integral dm (short_t dm A) from = from \<and>
         convert_integral dm (short_t dm A) to = to \<and>
         (\<exists>w s'.
            get lib dm Plain (short_t dm A) (short_t dm A)
              (Integer_value (convert_integral dm (short_t dm A) from))
              (Integer_value (convert_integral dm (short_t dm A) to)) s =
              Inr (Integer_value w, s') \<and>
            get lib dm Plain A A (Integer_value from) (Integer_value to) s =
              Inr (Integer_value (convert_integral dm A w), s') \<and>
            convert_integral dm A w = w \<and>
            in_range dm A (convert_integral dm A w) \<and>
            min from to \<le> convert_integral dm A w \<and>
            convert_integral dm A w \<le> max from to)"
proof -
  let ?S = "short_t dm A"
  have t: "?S = (if A = T_signed_char then T_short else T_unsigned_short)"
    using assms(3) by (auto simp: short_t_def is_byte_def)
  have b16: "16 \<le> bits dm ?S"
    using assms(1) by (simp add: short_t_def valid_model_def)
  have r: "in_range dm ?S from" "in_range dm ?S to"
    using byte_in_short[OF assms(1,3)] assms(4,5) by simp_all
  have c: "convert_integral dm ?S from = from" "convert_integral dm ?S to = to"
    using convert_integral_id[OF assms(1) short_t_integral] r by simp_all
  from get_byte_bounds[OF assms, of s]
  obtain w s' where g: "get_uniform_int lib ?S from to s = Inr (w, s')"
    and gb: "get_byte lib dm A from to s = Inr (w, s')"
    and b: "min from to \<le> w" "w \<le> max from to" and w: "in_range dm A w" by blast
  have "is_integral A" using assms(3) by (auto simp: is_byte_def)
  then have cw: "convert_integral dm A w = w"
    using convert_integral_id[OF assms(1) _ w] by simp
  have inner: "get lib dm Plain ?S ?S (Integer_value from) (Integer_value to) s =
      Inr (Integer_value w, s')"
    using g by (simp add: get_plain_uniform_int[OF short_t_uniform_int])
  have nb: "\<not> is_uniform_int A" "\<not> is_uniform_real A"
    using traits_exclusive(3)[OF assms(3)] by simp_all
  have "is_supported_number A" using assms(3) by (simp add: is_supported_number_def)
  then have outer: "get lib dm Plain A A (Integer_value from) (Integer_value to) s =
      Inr (Integer_value w, s')"
    using gb nb assms(3) by (simp add: get_plain get_single_def cast_int_def)
  show ?thesis
    using t b16 c inner outer cw b w by (metis (no_types, lifting))
qed

theorem get_byte_widens_samples_narrows_witness:
  "short_t lp64 T_signed_char =
     (if T_signed_char = T_signed_char then T_short else T_unsigned_short) \<and>
   16 \<le> bits lp64 (short_t lp64 T_signed_char) \<and>
   convert_integral lp64 (short_t lp64 T_signed_char) (- 5) = - 5 \<and>
   convert_integral lp64 (short_t lp64 T_signed_char) 5 = 5 \<and>
   (\<exists>w s'.
      get toy_library lp64 Plain (short_t lp64 T_signed_char) (short_t lp64 T_signed_char)
        (Integer_value (convert_integral lp64 (short_t lp64 T_signed_char) (- 5)))
        (Integer_value (convert_integral lp64 (short_t lp64 T_signed_char) 5))
        \<lparr>engine = 42\<rparr> = Inr (Integer_value w, s') \<and>
      get toy_library lp64 Plain T_signed_char T_signed_char (Integer_value (- 5))
        (Integer_value 5) \<lparr>engine = 42\<rparr> =
        Inr (Integer_value (convert_integral lp64 T_signed_char w), s') \<and>
      convert_integral lp64 T_signed_char w = w \<and>
      in_range lp64 T_signed_char (convert_integral lp64 T_signed_char w) \<and>
      min (- 5) 5 \<le> convert_integral lp64 T_signed_char w \<and>
      convert_integral lp64 T_signed_char w \<le> max (- 5) 5)"
proof -
  have b: "is_byte T_signed_char" by (simp add: is_byte_def)
  have r: "in_range lp64 T_signed_char (- 5)" "in_range lp64 T_signed_char 5"
    by (simp_all add: in_range_def min_value_def max_value_def lp64_def)
  show ?thesis
    by (rule get_byte_widens_samples_narrows[OF lp64_valid toy_library_ok b r])
qed

text \<open>
  C4, as the code has it. For every supported integer or byte type \<open>A\<close> and every
  value \<open>x\<close> of \<open>A\<close>, the call \<open>get(x, x)\<close> returns \<open>x\<close>. For a floating-point
  type it returns \<open>x\<close> when \<open>x\<close> satisfies the precondition of the real distribution
  on \<open>[x, x]\<close> (\<open>x <= x\<close> and \<open>x - x <= max\<close>: a finite number, neither an infinity
  nor NaN), given the contract of the distribution and that numbers which compare
  equal are one value.
\<close>

theorem get_equal_bounds:
  assumes "valid_model dm" "int_distribution_ok lib dm"
    and "real_distribution_ok lib" "real_le_antisym lib"
    and "is_supported_number A" and "has_type dm A x"
    and "\<And>r. x = Real_value r \<Longrightarrow> real_precondition lib A r r"
  shows "\<exists>s'. get lib dm Plain A A x x s = Inr (x, s')"
proof -
  consider (int) "is_uniform_int A" | (real) "is_uniform_real A" | (byte) "is_byte A"
    using assms(5) by (auto simp: is_supported_number_def)
  then show ?thesis
  proof cases
    case int
    from has_type_integral[OF assms(6)] uniform_int_integral[OF int]
    obtain i where x: "x = Integer_value i" and r: "in_range dm A i" by blast
    from get_uniform_int_bounds[OF assms(2) r r, of s]
    obtain v s' where "get_uniform_int lib A i i s = Inr (v, s')" "v = i" by auto
    then show ?thesis
      using int x by (simp add: get_plain[OF assms(5)] get_single_def cast_int_def)
  next
    case real
    from has_type_floating[OF assms(6)] uniform_real_floating[OF real]
    obtain r where x: "x = Real_value r" by blast
    have pre: "real_precondition lib A r r" by (rule assms(7)[OF x])
    let ?v = "fst (uniform_real_distribution lib A r r (engine s))"
    from assms(3) pre have "real_le lib r ?v \<and> real_le lib ?v r"
      unfolding real_distribution_ok_def by blast
    with assms(4) have v: "?v = r"
      unfolding real_le_antisym_def by blast
    have "real_min lib r r = r" "real_max lib r r = r"
      by (simp_all add: real_min_def real_max_def)
    then show ?thesis
      using x v by (simp add: get_plain[OF assms(5)] get_single_real[OF real] cast_real_def
          draw_real_Inr[OF pre])
  next
    case byte
    from has_type_integral[OF assms(6)] byte_integral[OF byte]
    obtain i where x: "x = Integer_value i" and r: "in_range dm A i" by blast
    from get_byte_bounds[OF assms(1,2) byte r r, of s]
    obtain w s' where "get_byte lib dm A i i s = Inr (w, s')" "w = i" by auto
    then show ?thesis
      using byte traits_exclusive(3)[OF byte] x
      by (simp add: get_plain[OF assms(5)] get_single_def cast_int_def)
  qed
qed

theorem get_equal_bounds_witness:
  "(\<exists>s'. get ieee_library lp64 Plain T_long T_long (Integer_value 7) (Integer_value 7)
            \<lparr>engine = 42\<rparr> = Inr (Integer_value 7, s')) \<and>
   (\<exists>s'. get ieee_library lp64 Plain T_unsigned_char T_unsigned_char (Integer_value 200)
            (Integer_value 200) \<lparr>engine = 42\<rparr> = Inr (Integer_value 200, s')) \<and>
   (\<exists>s'. get ieee_library lp64 Plain T_double T_double (Real_value (Finite (1 / 2)))
            (Real_value (Finite (1 / 2))) \<lparr>engine = 42\<rparr> =
            Inr (Real_value (Finite (1 / 2)), s'))"
proof -
  have s: "is_supported_number T_long" "is_supported_number T_unsigned_char"
    "is_supported_number T_double"
    by (simp_all add: is_supported_number_def is_uniform_int_def is_byte_def
          is_uniform_real_def)
  have t: "has_type lp64 T_long (Integer_value 7 :: ieee number)"
    "has_type lp64 T_unsigned_char (Integer_value 200 :: ieee number)"
    "has_type lp64 T_double (Real_value (Finite (1 / 2)))"
    by (simp_all add: has_type_def in_range_def min_value_def max_value_def lp64_def)
  have pre: "real_precondition ieee_library T_double (Finite (1 / 2)) (Finite (1 / 2))"
    by (rule ieee_precondition_finite) (use largest_finite_ge_1[of T_double] in linarith)+
  show ?thesis
    using get_equal_bounds[OF lp64_valid ieee_library_int_ok ieee_library_real_ok
        ieee_library_antisym s(1) t(1), of "\<lparr>engine = 42\<rparr>"]
      get_equal_bounds[OF lp64_valid ieee_library_int_ok ieee_library_real_ok
        ieee_library_antisym s(2) t(2), of "\<lparr>engine = 42\<rparr>"]
      get_equal_bounds[OF lp64_valid ieee_library_int_ok ieee_library_real_ok
        ieee_library_antisym s(3) t(3), of "\<lparr>engine = 42\<rparr>"]
      pre
    by simp
qed

text \<open>
  The claim as the specification states it fails at an infinite bound: in
  \<open>get(inf, inf)\<close> on two \<open>double\<close>s the difference \<open>inf - inf\<close> is NaN, the
  precondition \<open>b - a <= max\<close> is violated, and the library's formula yields NaN,
  not the bound.
\<close>

theorem get_equal_infinite_bounds:
  "has_type lp64 T_double (Real_value Plus_infinity) \<and>
   get ieee_library lp64 Plain T_double T_double (Real_value Plus_infinity)
     (Real_value Plus_infinity) \<lparr>engine = 42\<rparr> = Inl Undefined_behaviour \<and>
   fst (uniform_real_distribution ieee_library T_double Plus_infinity Plus_infinity 42) = NaN \<and>
   NaN \<noteq> Plus_infinity"
  by (simp add: has_type_def get_def single_overload_def is_uniform_int_def
        is_uniform_real_def cast_real_def get_uniform_real_def draw_real_def
        real_precondition_def ieee_library_def ieee_le_def ieee_sub_def)

text \<open>
  C6, as the code has it. For every supported floating-point type and every pair of
  bounds that, ordered by the overload, satisfy the precondition of the real
  distribution (\<open>min <= max\<close> and \<open>max - min\<close> at most the largest finite value, so
  no bound is NaN and the range does not overflow), \<open>get(from, to)\<close> returns a value
  \<open>v\<close> with \<open>min(from, to) <= v <= max(from, to)\<close>, given the contract of the
  distribution.
\<close>

theorem get_real_within_bounds:
  assumes "real_distribution_ok lib" and "is_uniform_real A"
    and "real_precondition lib A (real_min lib from to) (real_max lib from to)"
  shows "\<exists>v s'. get lib dm Plain A A (Real_value from) (Real_value to) s =
                   Inr (Real_value v, s') \<and>
                 real_le lib (real_min lib from to) v \<and>
                 real_le lib v (real_max lib from to)"
proof -
  have sup: "is_supported_number A"
    using assms(2) by (simp add: is_supported_number_def)
  let ?v = "fst (uniform_real_distribution lib A (real_min lib from to)
                   (real_max lib from to) (engine s))"
  from assms(1,3) have "real_le lib (real_min lib from to) ?v \<and>
      real_le lib ?v (real_max lib from to)"
    unfolding real_distribution_ok_def by blast
  then show ?thesis
    by (simp add: get_plain[OF sup] get_single_real[OF assms(2)] cast_real_def
          draw_real_Inr[OF assms(3)])
qed

theorem get_real_within_bounds_witness:
  "\<exists>v s'. get ieee_library lp64 Plain T_double T_double (Real_value (Finite 1))
             (Real_value (Finite 0)) \<lparr>engine = 42\<rparr> = Inr (Real_value v, s') \<and>
           ieee_le (Finite 0) v \<and> ieee_le v (Finite 1)"
proof -
  have d: "is_uniform_real T_double" by (simp add: is_uniform_real_def)
  have mm: "real_min ieee_library (Finite 1) (Finite 0) = Finite 0"
    "real_max ieee_library (Finite 1) (Finite 0) = Finite 1"
    by (simp_all add: real_min_def real_max_def ieee_library_def)
  have "real_precondition ieee_library T_double (Finite 0) (Finite 1)"
    by (rule ieee_precondition_finite) (use largest_finite_ge_1[of T_double] in linarith)+
  then have pre: "real_precondition ieee_library T_double
      (real_min ieee_library (Finite 1) (Finite 0)) (real_max ieee_library (Finite 1) (Finite 0))"
    by (simp only: mm)
  have le: "real_le ieee_library = ieee_le" by (simp add: ieee_library_def)
  show ?thesis
    using get_real_within_bounds[OF ieee_library_real_ok d pre, of lp64 "\<lparr>engine = 42\<rparr>"]
    by (simp only: mm le)
qed

text \<open>
  The claim as the specification states it fails on a range that overflows: in
  \<open>get(-DBL_MAX, DBL_MAX)\<close> the difference of the bounds is beyond the largest finite
  value, the precondition \<open>b - a <= max\<close> is violated, and the library's formula
  yields an infinity, which is above the larger bound.
\<close>

theorem get_real_overflowing_range:
  "get ieee_library lp64 Plain T_double T_double
     (Real_value (Finite (- largest_finite T_double)))
     (Real_value (Finite (largest_finite T_double))) \<lparr>engine = 42\<rparr> =
     Inl Undefined_behaviour \<and>
   fst (uniform_real_distribution ieee_library T_double
          (Finite (- largest_finite T_double)) (Finite (largest_finite T_double)) 42) =
     Plus_infinity \<and>
   \<not> ieee_le Plus_infinity (Finite (largest_finite T_double))"
proof -
  have m: "1 \<le> largest_finite T_double" by (rule largest_finite_ge_1)
  have o: "overflow T_double (largest_finite T_double + largest_finite T_double) = Plus_infinity"
    using m by (simp add: overflow_def)
  have l: "ieee_less (Finite (- largest_finite T_double)) (Finite (largest_finite T_double))"
    using m by simp
  have g: "get ieee_library lp64 Plain T_double T_double
     (Real_value (Finite (- largest_finite T_double)))
     (Real_value (Finite (largest_finite T_double))) \<lparr>engine = 42\<rparr> =
     Inl Undefined_behaviour"
    using o l
    by (simp add: get_def single_overload_def is_uniform_int_def is_uniform_real_def
          cast_real_def get_uniform_real_def draw_real_def real_precondition_def
          ieee_library_def ieee_le_def ieee_sub_def del: largest_finite.simps)
  have d: "fst (uniform_real_distribution ieee_library T_double
          (Finite (- largest_finite T_double)) (Finite (largest_finite T_double)) 42) =
     Plus_infinity"
    using o by (simp add: ieee_library_def ieee_sub_def del: largest_finite.simps)
  have n: "\<not> ieee_le Plus_infinity (Finite (largest_finite T_double))"
    by (simp add: ieee_le_def)
  from g d n show ?thesis by blast
qed





text \<open>
  C10. The overload for the common type is chosen only by a call that writes the key
  type \<open>common\<close> as the first template argument. A call \<open>get(from, to)\<close> without
  template arguments and with bounds of two different types has no overload, also
  for the pairs of types that the \<open>enable_if\<close> condition of that overload accepts.
\<close>

theorem common_overload_needs_key:
  "(resolve dm c a b = Some sg \<and> chosen sg = Common_type \<longrightarrow> c = Keyed T_common) \<and>
   (a \<noteq> b \<longrightarrow>
      resolve dm Plain a b = None \<and>
      get lib dm Plain a b x y s = Inl No_matching_overload)"
proof (intro conjI impI)
  assume h: "resolve dm c a b = Some sg \<and> chosen sg = Common_type"
  show "c = Keyed T_common"
  proof (cases c)
    case Plain
    with h have "resolve dm Plain a b = Some sg" by simp
    from resolve_Plain_Some[OF this] h show ?thesis by simp
  next
    case (Keyed K)
    with h have "resolve dm (Keyed K) a b = Some sg" by simp
    from resolve_Keyed_Some[OF this] h Keyed show ?thesis by blast
  qed
next
  assume "a \<noteq> b"
  then show "resolve dm Plain a b = None" by simp
next
  assume "a \<noteq> b"
  then show "get lib dm Plain a b x y s = Inl No_matching_overload"
    by (simp add: get_as_single)
qed

theorem common_overload_needs_key_witness:
  "common_enabled lp64 T_common T_short T_long \<and>
   resolve lp64 (Keyed T_common) T_short T_long =
     Some \<lparr>chosen = Common_type, from_type = T_short, to_type = T_long, return_type = T_long\<rparr> \<and>
   resolve lp64 Plain T_short T_long = None \<and>
   get toy_library lp64 Plain T_short T_long (Integer_value 1) (Integer_value 2)
     \<lparr>engine = 42\<rparr> = Inl No_matching_overload"
proof -
  have e: "common_enabled lp64 T_common T_short T_long"
    by (simp add: common_enabled_def is_supported_number_def is_uniform_int_def)
  have c: "common_type lp64 T_short T_long = Some T_long"
    by (simp add: common_type_def is_arithmetic_def promote_def
          usual_arithmetic_conversions_def min_value_def max_value_def lp64_def)
  have r: "resolve lp64 (Keyed T_common) T_short T_long =
     Some \<lparr>chosen = Common_type, from_type = T_short, to_type = T_long, return_type = T_long\<rparr>"
    using e c by simp
  have n: "T_short \<noteq> T_long" by simp
  show ?thesis
    using e r n
      common_overload_needs_key[of lp64 "Keyed T_common" T_short T_long
        "\<lparr>chosen = Common_type, from_type = T_short, to_type = T_long, return_type = T_long\<rparr>"
        toy_library "Integer_value 1" "Integer_value 2" "\<lparr>engine = 42\<rparr>"]
    by blast
qed

text \<open>
  C1, as the code has it. For bounds of supported numeric types \<open>A\<close> and \<open>B\<close>, the
  overload for the common type (called as \<open>get<common>(from, to)\<close>) is enabled
  exactly when \<open>A\<close> and \<open>B\<close> have the same signedness (both signed, a
  floating-point type being signed, or both unsigned). A call with one signed and
  one unsigned type has no overload. An enabled call takes the common type \<open>C\<close>,
  converts both bounds to \<open>C\<close> and calls the overload whose trait accepts \<open>C\<close>;
  for integer and byte bounds the conversions keep the values and the result lies in
  \<open>[min(from, to), max(from, to)]\<close>.
\<close>

theorem common_overload_same_signedness:
  assumes "valid_model dm" "int_distribution_ok lib dm"
    and "is_supported_number a" "is_supported_number b"
  shows "(common_enabled dm T_common a b \<longleftrightarrow> is_signed dm a = is_signed dm b) \<and>
         (is_signed dm a \<noteq> is_signed dm b \<longrightarrow>
            resolve dm (Keyed T_common) a b = None \<and>
            get lib dm (Keyed T_common) a b x y s = Inl No_matching_overload) \<and>
         (is_signed dm a = is_signed dm b \<longrightarrow>
            (\<exists>C. common_type dm a b = Some C \<and> is_supported_number C \<and>
                 resolve dm (Keyed T_common) a b =
                   Some \<lparr>chosen = Common_type, from_type = a, to_type = b, return_type = C\<rparr> \<and>
                 get lib dm (Keyed T_common) a b x y s = get_single lib dm a b C x y s \<and>
                 (\<forall>i j. x = Integer_value i \<and> y = Integer_value j \<and>
                        has_type dm a x \<and> has_type dm b y \<longrightarrow>
                    cast_int lib dm a C x = i \<and> cast_int lib dm b C y = j \<and>
                    (\<exists>v s'. get lib dm (Keyed T_common) a b x y s = Inr (Integer_value v, s') \<and>
                            min i j \<le> v \<and> v \<le> max i j))))"
proof (intro conjI impI)
  show e: "common_enabled dm T_common a b \<longleftrightarrow> is_signed dm a = is_signed dm b"
    using assms(3,4) by (simp add: common_enabled_iff)
  {
    assume "is_signed dm a \<noteq> is_signed dm b"
    with e have n: "\<not> common_enabled dm T_common a b" by simp
    from get_keyed_common_rejected[OF n]
    show "resolve dm (Keyed T_common) a b = None"
      and "get lib dm (Keyed T_common) a b x y s = Inl No_matching_overload" by simp_all
  }
  assume sg: "is_signed dm a = is_signed dm b"
  with e have en: "common_enabled dm T_common a b" by simp
  from common_type_supported[OF assms(3,4), of dm]
  obtain C where C: "common_type dm a b = Some C" "is_supported_number C" by blast
  note k = get_keyed_common(1)[OF en C(1)] get_keyed_common(2)[OF en C(1), of lib x y s]
  have "cast_int lib dm a C x = i \<and> cast_int lib dm b C y = j \<and>
        (\<exists>v s'. get lib dm (Keyed T_common) a b x y s = Inr (Integer_value v, s') \<and>
                min i j \<le> v \<and> v \<le> max i j)"
    if h: "x = Integer_value i \<and> y = Integer_value j \<and> has_type dm a x \<and> has_type dm b y"
    for i j
  proof -
    from h have ia: "is_integral a" "in_range dm a i" and ib: "is_integral b" "in_range dm b j"
      by (auto simp: has_type_def)
    have sa: "is_uniform_int a \<or> is_byte a" and sb: "is_uniform_int b \<or> is_byte b"
      using integral_supported assms(3,4) ia(1) ib(1) by blast+
    from common_type_wider[OF assms(1) sa sb sg] C(1)
    have c: "is_uniform_int C \<or> is_byte C"
      and wa: "(is_signed dm a = is_signed dm C \<and> bits dm a \<le> bits dm C) \<or>
            (\<not> is_signed dm a \<and> is_signed dm C \<and> bits dm a < bits dm C)"
      by auto
    from common_type_wider[OF assms(1) sb sa sg[symmetric]] C(1)
    have wb: "(is_signed dm b = is_signed dm C \<and> bits dm b \<le> bits dm C) \<or>
            (\<not> is_signed dm b \<and> is_signed dm C \<and> bits dm b < bits dm C)"
      by (auto simp: common_type_commute[of dm b a])
    have ri: "in_range dm C i" by (rule in_range_into[OF wa ia(2)])
    have rj: "in_range dm C j" by (rule in_range_into[OF wb ib(2)])
    have ci: "cast_int lib dm a C x = i" "cast_int lib dm b C y = j"
      using h cast_int_keeps[OF assms(1) c ri] cast_int_keeps[OF assms(1) c rj] by simp_all
    have "in_range dm C (cast_int lib dm a C x)" "in_range dm C (cast_int lib dm b C y)"
      using ri rj ci by simp_all
    from get_single_integral_bounds[OF assms(1,2) c this, of s]
    obtain v s' where "get_single lib dm a b C x y s = Inr (Integer_value v, s')"
      "min i j \<le> v" "v \<le> max i j"
      unfolding ci by blast
    with ci k(2) show ?thesis by auto
  qed
  with C k
  show "\<exists>C. common_type dm a b = Some C \<and> is_supported_number C \<and>
                 resolve dm (Keyed T_common) a b =
                   Some \<lparr>chosen = Common_type, from_type = a, to_type = b, return_type = C\<rparr> \<and>
                 get lib dm (Keyed T_common) a b x y s = get_single lib dm a b C x y s \<and>
                 (\<forall>i j. x = Integer_value i \<and> y = Integer_value j \<and>
                        has_type dm a x \<and> has_type dm b y \<longrightarrow>
                    cast_int lib dm a C x = i \<and> cast_int lib dm b C y = j \<and>
                    (\<exists>v s'. get lib dm (Keyed T_common) a b x y s = Inr (Integer_value v, s') \<and>
                            min i j \<le> v \<and> v \<le> max i j))"
    by blast
qed

theorem common_overload_same_signedness_witness:
  "common_enabled lp64 T_common T_short T_long \<and>
   (\<exists>v s'. get toy_library lp64 (Keyed T_common) T_short T_long (Integer_value (- 3))
              (Integer_value 9) \<lparr>engine = 42\<rparr> = Inr (Integer_value v, s') \<and>
            - 3 \<le> v \<and> v \<le> 9) \<and>
   \<not> common_enabled lp64 T_common T_int T_unsigned_int \<and>
   get toy_library lp64 (Keyed T_common) T_int T_unsigned_int (Integer_value (- 10))
     (Integer_value 10) \<lparr>engine = 42\<rparr> = Inl No_matching_overload"
proof -
  have s: "is_supported_number T_short" "is_supported_number T_long"
    "is_supported_number T_int" "is_supported_number T_unsigned_int"
    by (simp_all add: is_supported_number_def is_uniform_int_def)
  have t: "has_type lp64 T_short (Integer_value (- 3) :: rat number)"
    "has_type lp64 T_long (Integer_value 9 :: rat number)"
    by (simp_all add: has_type_def in_range_def min_value_def max_value_def lp64_def)
  have g: "is_signed lp64 T_short = is_signed lp64 T_long"
    "is_signed lp64 T_int \<noteq> is_signed lp64 T_unsigned_int"
    by simp_all
  note A = common_overload_same_signedness[OF lp64_valid toy_library_ok s(1,2),
      of "Integer_value (- 3)" "Integer_value 9" "\<lparr>engine = 42\<rparr>"]
  note B = common_overload_same_signedness[OF lp64_valid toy_library_ok s(3,4),
      of "Integer_value (- 10)" "Integer_value 10" "\<lparr>engine = 42\<rparr>"]
  from A g(1) have a1: "common_enabled lp64 T_common T_short T_long" by blast
  from A g(1) t have a2:
    "\<exists>v s'. get toy_library lp64 (Keyed T_common) T_short T_long (Integer_value (- 3))
              (Integer_value 9) \<lparr>engine = 42\<rparr> = Inr (Integer_value v, s') \<and>
            min (- 3) 9 \<le> v \<and> v \<le> max (- 3) 9"
    by blast
  from B g(2) have b1: "\<not> common_enabled lp64 T_common T_int T_unsigned_int" by blast
  from B g(2) have b2:
    "get toy_library lp64 (Keyed T_common) T_int T_unsigned_int (Integer_value (- 10))
       (Integer_value 10) \<lparr>engine = 42\<rparr> = Inl No_matching_overload"
    by blast
  from a1 a2 b1 b2 show ?thesis by simp
qed

text \<open>
  The claim as the specification states it fails: \<open>get<common>(-10, 10u)\<close>, with an
  \<open>int\<close> and an \<open>unsigned int\<close>, has no overload, and \<open>get<common>\<close> on a
  \<open>short\<close> and an \<open>int\<close>, two types of one signedness, is accepted.
\<close>

theorem mixed_signedness_is_rejected:
  "\<not> common_enabled lp64 T_common T_int T_unsigned_int \<and>
   resolve lp64 (Keyed T_common) T_int T_unsigned_int = None \<and>
   get toy_library lp64 (Keyed T_common) T_int T_unsigned_int (Integer_value (- 10))
     (Integer_value 10) \<lparr>engine = 42\<rparr> = Inl No_matching_overload \<and>
   common_enabled lp64 T_common T_short T_int \<and>
   get toy_library lp64 (Keyed T_common) T_short T_int (Integer_value (- 10))
     (Integer_value 10) \<lparr>engine = 42\<rparr> =
     Inr (Integer_value (- 10), \<lparr>engine = 705894\<rparr>)"
proof -
  have m: "\<not> common_enabled lp64 T_common T_int T_unsigned_int"
    by (simp add: common_enabled_def)
  have n: "single_overload T_common = None"
    by (simp add: single_overload_def is_uniform_int_def is_uniform_real_def is_byte_def)
  have r: "resolve lp64 (Keyed T_common) T_int T_unsigned_int = None"
    using m n by simp
  have g: "get toy_library lp64 (Keyed T_common) T_int T_unsigned_int (Integer_value (- 10))
     (Integer_value 10) \<lparr>engine = 42\<rparr> = Inl No_matching_overload"
    using r by (simp add: get_def)
  have e: "common_enabled lp64 T_common T_short T_int"
    by (simp add: common_enabled_def is_supported_number_def is_uniform_int_def)
  have c: "common_type lp64 T_short T_int = Some T_int"
    by (simp add: common_type_def is_arithmetic_def promote_def
          usual_arithmetic_conversions_def min_value_def max_value_def lp64_def)
  have h: "get toy_library lp64 (Keyed T_common) T_short T_int (Integer_value (- 10))
     (Integer_value 10) \<lparr>engine = 42\<rparr> =
     Inr (Integer_value (- 10), \<lparr>engine = 705894\<rparr>)"
    using e c
    by (simp add: get_def get_common_def get_single_def is_uniform_int_def cast_int_def
          convert_integral_def lp64_def get_uniform_int_def draw_int_def toy_library_def
          minstd_step_def)
  from m r g e h show ?thesis by simp
qed

text \<open>
  C7. For a call \<open>get(from, to)\<close> or \<open>get<common>(from, to)\<close> that has an overload,
  the return type is the common type of the types of the two bounds, and it is the
  type of the bounds when both have one type; the value returned is a value of that
  type. (The one call that returns no value runs the overload for floating-point
  types on bounds that violate the precondition of the real distribution.)
\<close>

theorem return_type_is_common_type:
  assumes "valid_model dm" "int_distribution_ok lib dm"
    and "resolve dm c a b = Some sg" and "c = Plain \<or> c = Keyed T_common"
    and "has_type dm a x" "has_type dm b y"
  shows "common_type dm a b = Some (return_type sg) \<and>
         (a = b \<longrightarrow> return_type sg = a) \<and>
         ((\<exists>v s'. get lib dm c a b x y s = Inr (v, s') \<and> has_type dm (return_type sg) v) \<or>
          (is_uniform_real (return_type sg) \<and>
           get lib dm c a b x y s = Inl Undefined_behaviour))"
proof -
  have ct: "common_type dm a b = Some (return_type sg)"
    using assms(4)
  proof
    assume "c = Plain"
    with assms(3) have "resolve dm Plain a b = Some sg" by simp
    from resolve_Plain_Some[OF this] show ?thesis by (auto simp: common_type_same)
  next
    assume "c = Keyed T_common"
    with assms(3) have "resolve dm (Keyed T_common) a b = Some sg" by simp
    from resolve_Keyed_Some[OF this] show ?thesis by blast
  qed
  then have same: "a = b \<longrightarrow> return_type sg = a"
    by (auto simp: common_type_same)
  have g: "get lib dm c a b x y s = get_single lib dm a b (return_type sg) x y s"
    using assms(3) by (simp add: get_as_single)
  from get_single_has_type[OF assms(1,2) resolve_return_supported[OF assms(3)] assms(5,6), of s]
  have "(\<exists>v s'. get lib dm c a b x y s = Inr (v, s') \<and> has_type dm (return_type sg) v) \<or>
          (is_uniform_real (return_type sg) \<and>
           get lib dm c a b x y s = Inl Undefined_behaviour)"
    unfolding g .
  with ct same show ?thesis by blast
qed

theorem return_type_is_common_type_witness:
  "common_type lp64 T_short T_long = Some T_long \<and>
   (\<exists>v s'. get toy_library lp64 (Keyed T_common) T_short T_long (Integer_value (- 3))
              (Integer_value 9) \<lparr>engine = 42\<rparr> = Inr (v, s') \<and> has_type lp64 T_long v) \<and>
   common_type lp64 T_float T_float = Some T_float \<and>
   (\<exists>v s'. get toy_library lp64 Plain T_float T_float (Real_value 0) (Real_value 1)
              \<lparr>engine = 42\<rparr> = Inr (v, s') \<and> has_type lp64 T_float v)"
proof -
  have e: "common_enabled lp64 T_common T_short T_long"
    by (simp add: common_enabled_def is_supported_number_def is_uniform_int_def)
  have c: "common_type lp64 T_short T_long = Some T_long"
    by (simp add: common_type_def is_arithmetic_def promote_def
          usual_arithmetic_conversions_def min_value_def max_value_def lp64_def)
  have r1: "resolve lp64 (Keyed T_common) T_short T_long =
     Some \<lparr>chosen = Common_type, from_type = T_short, to_type = T_long, return_type = T_long\<rparr>"
    using e c by simp
  have r2: "resolve lp64 Plain T_float T_float =
     Some \<lparr>chosen = Uniform_real, from_type = T_float, to_type = T_float, return_type = T_float\<rparr>"
    by (simp add: single_overload_def is_uniform_int_def is_uniform_real_def)
  have t: "has_type lp64 T_short (Integer_value (- 3) :: rat number)"
    "has_type lp64 T_long (Integer_value 9 :: rat number)"
    "has_type lp64 T_float (Real_value 0 :: rat number)"
    "has_type lp64 T_float (Real_value 1 :: rat number)"
    by (simp_all add: has_type_def in_range_def min_value_def max_value_def lp64_def)
  have k: "Keyed T_common = Plain \<or> Keyed T_common = Keyed T_common"
    "Plain = Plain \<or> Plain = Keyed T_common" by simp_all
  have n: "\<not> is_uniform_real T_long" by (simp add: is_uniform_real_def)
  have u: "get toy_library lp64 Plain T_float T_float (Real_value 0) (Real_value 1)
      \<lparr>engine = 42\<rparr> \<noteq> Inl Undefined_behaviour"
    by (simp add: get_def single_overload_def is_uniform_int_def is_uniform_real_def
          cast_real_def get_uniform_real_def draw_real_def real_precondition_def
          toy_library_def)
  show ?thesis
    using return_type_is_common_type[OF lp64_valid toy_library_ok r1 k(1) t(1,2),
        of "\<lparr>engine = 42\<rparr>"]
      return_type_is_common_type[OF lp64_valid toy_library_ok r2 k(2) t(3,4),
        of "\<lparr>engine = 42\<rparr>"]
      n u
    by simp
qed

end
